theory Spec2Isabelle
  imports Main "HOL-Library.Word"
begin

unbundle bit_operations_syntax

section \<open>GraphicsEnv: the process-wide graphics environment\<close>

text \<open>
  A shallow embedding of \<^verbatim>\<open>libs/graphicsenv/GraphicsEnv.cpp\<close>. The singleton object is
  a record that every operation takes and returns; what the code does to the outside
  (log lines, \<^verbatim>\<open>dlopen\<close>/\<^verbatim>\<open>dlsym\<close>/\<^verbatim>\<open>dlclose\<close>, calls into the loaded
  feature-support library, reads from a descriptor) is threaded through a \<open>world\<close> record,
  whose \<open>trace\<close> lists the events in the order the code produces them. What the code
  asks of the platform (properties, files, the linker) is a record of functions,
  \<open>platform\<close>, so that every theorem holds for any platform behaviour.
\<close>

subsection \<open>Pointers, log lines and events\<close>

text \<open>
  A pointer that the code tests against \<^verbatim>\<open>nullptr\<close> is an \<open>option\<close>; the opaque
  \<^verbatim>\<open>void*\<close> handles of the feature-support library are only passed through, and are
  addresses (\<open>0\<close> is \<^verbatim>\<open>nullptr\<close>); the \<^verbatim>\<open>int\<close> rules version is a 32-bit word.
\<close>

type_synonym android_namespace_t = nat
type_synonym NativeLoaderNamespace = nat
type_synonym handle = nat

datatype log_level = ALOGV | ALOGD | ALOGW | ALOGE

text \<open>
  A log event carries the level and the format string of the source, without the quote
  marks the source puts around an argument or a phrase; the arguments are not recorded.
\<close>

datatype event =
    Log log_level string
  | Dlopen string
  | Dlsym string
  | Dlclose
  | Call_ANGLEGetFeatureSupportUtilAPIVersion "32 word"
  | Call_ANGLEAndroidParseRulesString "char list"
  | Call_ANGLEGetSystemInfo
  | Call_ANGLEAddDeviceInfoToSystemInfo string string handle
  | Call_ANGLEShouldBeUsedForApplication handle "32 word" handle string
  | Call_ANGLEFreeRulesHandle handle
  | Call_ANGLEFreeSystemInfoHandle handle

subsection \<open>The feature-support library (version-2 API)\<close>

text \<open>
  The seven entry points that \<^verbatim>\<open>dlsym\<close> may or may not find. Each one is a function of
  its arguments and of the library's own state \<open>'ms\<close>, and returns its \<^verbatim>\<open>bool\<close>, the values
  it writes through its out-parameters, and the library's new state.
\<close>

record 'ms feature_lib =
  lib_state :: 'ms
  sym_ANGLEGetFeatureSupportUtilAPIVersion ::
    "(32 word \<Rightarrow> 'ms \<Rightarrow> (bool \<times> 32 word) \<times> 'ms) option"
  sym_ANGLEAndroidParseRulesString ::
    "(char list \<Rightarrow> 'ms \<Rightarrow> (bool \<times> handle \<times> 32 word) \<times> 'ms) option"
  sym_ANGLEGetSystemInfo ::
    "('ms \<Rightarrow> (bool \<times> handle) \<times> 'ms) option"
  sym_ANGLEAddDeviceInfoToSystemInfo ::
    "(string \<Rightarrow> string \<Rightarrow> handle \<Rightarrow> 'ms \<Rightarrow> bool \<times> 'ms) option"
  sym_ANGLEShouldBeUsedForApplication ::
    "(handle \<Rightarrow> 32 word \<Rightarrow> handle \<Rightarrow> string \<Rightarrow> 'ms \<Rightarrow> bool \<times> 'ms) option"
  sym_ANGLEFreeRulesHandle ::
    "(handle \<Rightarrow> 'ms \<Rightarrow> bool \<times> 'ms) option"
  sym_ANGLEFreeSystemInfoHandle ::
    "(handle \<Rightarrow> 'ms \<Rightarrow> bool \<times> 'ms) option"

definition CURRENT_ANGLE_API_VERSION :: "32 word" where
  "CURRENT_ANGLE_API_VERSION = 2"

definition ANDROID_NAMESPACE_TYPE_ISOLATED :: "64 word" where
  "ANDROID_NAMESPACE_TYPE_ISOLATED = 1"

definition ANDROID_NAMESPACE_TYPE_SHARED :: "64 word" where
  "ANDROID_NAMESPACE_TYPE_SHARED = 2"

subsection \<open>The platform\<close>

text \<open>
  The functions of bionic, libcutils, libbase and the linker that the code calls and that
  are not part of this file. \<open>android_create_namespace\<close> takes the name, the two library
  paths, the type, the permitted path and the parent, as in the declaration at the top
  of the source; \<open>android_dlopen_ext\<close> takes the library name and the namespace of its
  \<^verbatim>\<open>dlextinfo\<close> (the flags are the same at the only call); \<open>allocates\<close> tells whether
  the allocator can provide a buffer of that many bytes.
\<close>

record 'ms platform =
  BIONIC :: bool
  GetProperty :: "string \<Rightarrow> string \<Rightarrow> string"
  property_get :: "string \<Rightarrow> string \<Rightarrow> string"
  atoi :: "string \<Rightarrow> int"
  getenv :: "string \<Rightarrow> string option"
  ReadFileToString :: "string \<Rightarrow> string option"
  android_get_exported_namespace :: "string \<Rightarrow> android_namespace_t option"
  android_create_namespace ::
    "string \<Rightarrow> string option \<Rightarrow> string option \<Rightarrow> 64 word \<Rightarrow> string option \<Rightarrow>
     android_namespace_t option \<Rightarrow> android_namespace_t option"
  android_link_namespaces ::
    "android_namespace_t option \<Rightarrow> android_namespace_t option \<Rightarrow> string \<Rightarrow> bool"
  android_dlopen_ext :: "string \<Rightarrow> android_namespace_t option \<Rightarrow> 'ms feature_lib option"
  allocates :: "nat \<Rightarrow> bool"

subsection \<open>Descriptors and the world\<close>

record fd_state =
  fd_data :: "char list"
  fd_pos :: nat

record world =
  fds :: "int \<Rightarrow> fd_state option"
  trace :: "event list"

definition emit :: "event \<Rightarrow> world \<Rightarrow> world" where
  "emit e w = w\<lparr>trace := trace w @ [e]\<rparr>"

text \<open>
  Modelled from the spec: \<^verbatim>\<open>lseek\<close> and \<^verbatim>\<open>read\<close> are system calls, not code of this
  file. The spec has the configuration "seek to the offset and read exactly that many
  bytes (or fewer, tolerated)" from "a descriptor offering only 40 bytes": a descriptor
  is a byte sequence with a position; a descriptor that is not open makes both calls
  fail (\<open>read\<close> returns \<open>-1\<close>), and a negative offset makes \<^verbatim>\<open>lseek\<close> fail and leave the
  position where it was. The code ignores what \<^verbatim>\<open>lseek\<close> returns.
\<close>

definition posix_lseek :: "int \<Rightarrow> int \<Rightarrow> world \<Rightarrow> world" where
  "posix_lseek fd offset w =
     (case fds w fd of
        None \<Rightarrow> w
      | Some f \<Rightarrow>
          if offset < 0 then w
          else w\<lparr>fds := (fds w)(fd \<mapsto> f\<lparr>fd_pos := nat offset\<rparr>)\<rparr>)"

definition posix_read :: "int \<Rightarrow> nat \<Rightarrow> world \<Rightarrow> (int \<times> char list) \<times> world" where
  "posix_read fd count w =
     (case fds w fd of
        None \<Rightarrow> ((- 1, []), w)
      | Some f \<Rightarrow>
          (let bytes = take count (drop (fd_pos f) (fd_data f))
           in ((int (length bytes), bytes),
               w\<lparr>fds := (fds w)(fd \<mapsto> f\<lparr>fd_pos := fd_pos f + length bytes\<rparr>)\<rparr>)))"

subsection \<open>The object\<close>

text \<open>
  The fields of \<^verbatim>\<open>GraphicsEnv\<close> that the source file reads and writes, and the two
  function-local \<^verbatim>\<open>static std::once_flag\<close>s of \<^verbatim>\<open>getDriverNamespace\<close> and
  \<^verbatim>\<open>getAngleNamespace\<close>.
\<close>

record GraphicsEnv =
  mDriverPath :: string
  mAnglePath :: string
  mAngleAppName :: string
  mAngleDeveloperOptIn :: string
  mRulesBuffer :: "char list"
  mUseAngle :: bool
  mDebugLayers :: string
  mDebugLayersGLES :: string
  mLayerPaths :: string
  mAppNamespace :: "NativeLoaderNamespace option"
  mDriverNamespace :: "android_namespace_t option"
  mAngleNamespace :: "android_namespace_t option"
  getDriverNamespace_once :: bool
  getAngleNamespace_once :: bool

text \<open>
  The singleton is a function-local static object: before any setter runs its strings
  are empty, its pointers null, its flags unset.
\<close>

definition getInstance :: GraphicsEnv where
  "getInstance =
     \<lparr>mDriverPath = [], mAnglePath = [], mAngleAppName = [], mAngleDeveloperOptIn = [],
      mRulesBuffer = [], mUseAngle = False, mDebugLayers = [], mDebugLayersGLES = [],
      mLayerPaths = [], mAppNamespace = None, mDriverNamespace = None,
      mAngleNamespace = None, getDriverNamespace_once = False,
      getAngleNamespace_once = False\<rparr>"

definition world0 :: world where
  "world0 = \<lparr>fds = (\<lambda>_. None), trace = []\<rparr>"

subsection \<open>Configuration setters\<close>

definition setDriverPath :: "string \<Rightarrow> GraphicsEnv \<Rightarrow> world \<Rightarrow> GraphicsEnv \<times> world" where
  "setDriverPath path g w =
     (if mDriverPath g \<noteq> [] then
        (g, emit (Log ALOGV ''ignoring attempt to change driver path from %s to %s'') w)
      else
        (g\<lparr>mDriverPath := path\<rparr>, emit (Log ALOGV ''setting driver path to %s'') w))"

definition setLayerPaths ::
  "NativeLoaderNamespace option \<Rightarrow> string \<Rightarrow> GraphicsEnv \<Rightarrow> world \<Rightarrow> GraphicsEnv \<times> world" where
  "setLayerPaths appNamespace layerPaths g w =
     (if mLayerPaths g = [] then
        (g\<lparr>mLayerPaths := layerPaths, mAppNamespace := appNamespace\<rparr>, w)
      else
        (g, emit (Log ALOGV
           ''Vulkan layer search path already set, not clobbering with %s for namespace %p'') w))"

definition setDebugLayers :: "string \<Rightarrow> GraphicsEnv \<Rightarrow> GraphicsEnv" where
  "setDebugLayers layers g = g\<lparr>mDebugLayers := layers\<rparr>"

definition setDebugLayersGLES :: "string \<Rightarrow> GraphicsEnv \<Rightarrow> GraphicsEnv" where
  "setDebugLayersGLES layers g = g\<lparr>mDebugLayersGLES := layers\<rparr>"

definition getAppNamespace :: "GraphicsEnv \<Rightarrow> NativeLoaderNamespace option" where
  "getAppNamespace g = mAppNamespace g"

definition getLayerPaths :: "GraphicsEnv \<Rightarrow> string" where
  "getLayerPaths g = mLayerPaths g"

subsection \<open>The cached decision\<close>

definition shouldUseAngle :: "GraphicsEnv \<Rightarrow> world \<Rightarrow> bool \<times> world" where
  "shouldUseAngle g w =
     (if mAngleAppName g = [] then
        (False, emit (Log ALOGE
           ''App name is empty. setAngleInfo() must be called first to enable ANGLE.'') w)
      else (mUseAngle g, w))"

definition shouldUseAngle_appName :: "string \<Rightarrow> GraphicsEnv \<Rightarrow> world \<Rightarrow> bool \<times> world" where
  "shouldUseAngle_appName appName g w =
     (if appName \<noteq> mAngleAppName g then
        (False, emit (Log ALOGE ''App name does not match: expected %s, got %s'') w)
      else shouldUseAngle g w)"

subsection \<open>Reading the library name lists\<close>

datatype NativeLibrary = LLNDK | VNDKSP

fun kNativeLibrariesSystemConfigPath :: "NativeLibrary \<Rightarrow> string" where
  "kNativeLibrariesSystemConfigPath LLNDK = ''/etc/llndk.libraries.txt''"
| "kNativeLibrariesSystemConfigPath VNDKSP = ''/etc/vndksp.libraries.txt''"

definition vndkVersionStr :: "'ms platform \<Rightarrow> string" where
  "vndkVersionStr p =
     (if BIONIC p then
        (let version = GetProperty p ''ro.vndk.version'' []
         in if version \<noteq> [] \<and> version \<noteq> ''current'' then ''.'' @ version else [])
      else [])"

text \<open>\<^verbatim>\<open>std::string::find_last_of\<close> for one character: the last index holding it.\<close>

definition find_last_of :: "string \<Rightarrow> char \<Rightarrow> nat option" where
  "find_last_of s c =
     (if c \<in> set s then Some (length s - 1 - length (takeWhile (\<lambda>x. x \<noteq> c) (rev s)))
      else None)"

definition insertVndkVersionStr :: "'ms platform \<Rightarrow> string \<Rightarrow> string" where
  "insertVndkVersionStr p fileName =
     (let insertPos = (case find_last_of fileName (CHR ''.'') of
                         None \<Rightarrow> length fileName
                       | Some i \<Rightarrow> i)
      in take insertPos fileName @ vndkVersionStr p @ drop insertPos fileName)"

text \<open>
  Modelled from the spec: \<^verbatim>\<open>android::base::Split\<close>, \<^verbatim>\<open>Trim\<close> and \<^verbatim>\<open>Join\<close> are
  libbase functions, not code of this file. The spec has each config file as "a
  newline-separated list of library names; blank lines are skipped, surrounding
  whitespace trimmed", and the link steps as "exposing exactly the name list": \<open>Split\<close>
  cuts at every delimiter character and keeps the empty pieces, \<open>Trim\<close> removes the
  whitespace of the C locale at both ends, \<open>Join\<close> puts the separator between the names.
\<close>

fun Split :: "string \<Rightarrow> string \<Rightarrow> string list" where
  "Split [] delimiters = [[]]"
| "Split (c # s) delimiters =
     (if c \<in> set delimiters then [] # Split s delimiters
      else (case Split s delimiters of
              [] \<Rightarrow> [[c]]
            | x # xs \<Rightarrow> (c # x) # xs))"

definition isspace :: "char \<Rightarrow> bool" where
  "isspace c \<longleftrightarrow> c \<in> set [CHR '' '', CHR 0x09, CHR 0x0A, CHR 0x0B, CHR 0x0C, CHR 0x0D]"

definition Trim :: "string \<Rightarrow> string" where
  "Trim s = rev (dropWhile isspace (rev (dropWhile isspace s)))"

fun Join :: "string list \<Rightarrow> char \<Rightarrow> string" where
  "Join [] separator = []"
| "Join [x] separator = x"
| "Join (x # y # ys) separator = x @ separator # Join (y # ys) separator"

text \<open>
  \<open>readConfig\<close> appends to the vector its caller passes and returns whether the file
  could be read.
\<close>

definition readConfig :: "'ms platform \<Rightarrow> string \<Rightarrow> string list \<Rightarrow> bool \<times> string list" where
  "readConfig p configFile soNames =
     (case ReadFileToString p configFile of
        None \<Rightarrow> (False, soNames)
      | Some fileContent \<Rightarrow>
          (let lines = Split fileContent ''\<newline>''
           in (True, soNames @ filter (\<lambda>trimmedLine. trimmedLine \<noteq> []) (map Trim lines))))"

text \<open>
  The two function-local statics (\<^verbatim>\<open>androidRootEnv\<close>, \<^verbatim>\<open>rootDir\<close>) are computed at the
  first call; both calls are made inside one run of the once-only block of
  \<^verbatim>\<open>getDriverNamespace\<close>, on the same platform.
\<close>

definition getSystemNativeLibraries ::
  "'ms platform \<Rightarrow> NativeLibrary \<Rightarrow> world \<Rightarrow> string \<times> world" where
  "getSystemNativeLibraries p type w =
     (let rootDir = (case getenv p ''ANDROID_ROOT'' of
                       Some androidRootEnv \<Rightarrow> androidRootEnv
                     | None \<Rightarrow> ''/system'');
          nativeLibrariesSystemConfig =
            insertVndkVersionStr p (rootDir @ kNativeLibrariesSystemConfigPath type)
      in case readConfig p nativeLibrariesSystemConfig [] of
           (False, soNames) \<Rightarrow>
             ([], emit (Log ALOGE ''Failed to retrieve library names from %s'') w)
         | (True, soNames) \<Rightarrow> (Join soNames (CHR '':''), w))"

subsection \<open>The two isolated namespaces\<close>

text \<open>The body of the lambda that \<^verbatim>\<open>std::call_once\<close> runs in \<^verbatim>\<open>getDriverNamespace\<close>.\<close>

definition getDriverNamespace_once_body ::
  "'ms platform \<Rightarrow> GraphicsEnv \<Rightarrow> world \<Rightarrow> GraphicsEnv \<times> world" where
  "getDriverNamespace_once_body p g w =
     (if mDriverPath g = [] then (g, w)
      else
        (case android_get_exported_namespace p ''vndk'' of
           None \<Rightarrow> (g, w)
         | Some vndkNamespace \<Rightarrow>
             (let g = g\<lparr>mDriverNamespace :=
                        android_create_namespace p ''gfx driver''
                          (Some (mDriverPath g)) (Some (mDriverPath g))
                          ANDROID_NAMESPACE_TYPE_ISOLATED None None\<rparr>;
                  (llndkLibraries, w) = getSystemNativeLibraries p LLNDK w
              in if llndkLibraries = [] then (g\<lparr>mDriverNamespace := None\<rparr>, w)
                 else if \<not> android_link_namespaces p (mDriverNamespace g) None llndkLibraries
                 then (g\<lparr>mDriverNamespace := None\<rparr>,
                       emit (Log ALOGE ''Failed to link default namespace[%s]'') w)
                 else
                   (let (vndkspLibraries, w) = getSystemNativeLibraries p VNDKSP w
                    in if vndkspLibraries = [] then (g\<lparr>mDriverNamespace := None\<rparr>, w)
                       else if \<not> android_link_namespaces p (mDriverNamespace g)
                                   (Some vndkNamespace) vndkspLibraries
                       then (g\<lparr>mDriverNamespace := None\<rparr>,
                             emit (Log ALOGE ''Failed to link vndk namespace[%s]'') w)
                       else (g, w)))))"

definition getDriverNamespace ::
  "'ms platform \<Rightarrow> GraphicsEnv \<Rightarrow> world \<Rightarrow> android_namespace_t option \<times> GraphicsEnv \<times> world" where
  "getDriverNamespace p g w =
     (if getDriverNamespace_once g then (mDriverNamespace g, g, w)
      else
        (let (g, w) = getDriverNamespace_once_body p (g\<lparr>getDriverNamespace_once := True\<rparr>) w
         in (mDriverNamespace g, g, w)))"

definition getAngleNamespace_once_body ::
  "'ms platform \<Rightarrow> GraphicsEnv \<Rightarrow> world \<Rightarrow> GraphicsEnv \<times> world" where
  "getAngleNamespace_once_body p g w =
     (if mAnglePath g = [] then (g, w)
      else
        (let g = g\<lparr>mAngleNamespace :=
                   android_create_namespace p ''ANGLE'' None (Some (mAnglePath g))
                     (ANDROID_NAMESPACE_TYPE_SHARED OR ANDROID_NAMESPACE_TYPE_ISOLATED)
                     None None\<rparr>
         in case mAngleNamespace g of
              None \<Rightarrow> (g, emit (Log ALOGD ''Could not create ANGLE namespace from default'') w)
            | Some _ \<Rightarrow> (g, w)))"

definition getAngleNamespace ::
  "'ms platform \<Rightarrow> GraphicsEnv \<Rightarrow> world \<Rightarrow> android_namespace_t option \<times> GraphicsEnv \<times> world" where
  "getAngleNamespace p g w =
     (if getAngleNamespace_once g then (mAngleNamespace g, g, w)
      else
        (let (g, w) = getAngleNamespace_once_body p (g\<lparr>getAngleNamespace_once := True\<rparr>) w
         in (mAngleNamespace g, g, w)))"

subsection \<open>The decision engine\<close>

definition loadLibrary ::
  "'ms platform \<Rightarrow> string \<Rightarrow> GraphicsEnv \<Rightarrow> world \<Rightarrow> 'ms feature_lib option \<times> GraphicsEnv \<times> world" where
  "loadLibrary p name g w =
     (let (library_namespace, g, w) = getAngleNamespace p g w;
          libName = ''lib'' @ name @ ''_angle.so'';
          so = android_dlopen_ext p libName library_namespace;
          w = emit (Dlopen libName) w
      in case so of
           Some lib \<Rightarrow> (Some lib, g, emit (Log ALOGD ''dlopen_ext from APK (%s) success at %p'') w)
         | None \<Rightarrow> (None, g, emit (Log ALOGE ''dlopen_ext(%s) failed: %s'') w))"

text \<open>
  The macro \<^verbatim>\<open>GET_SYMBOL\<close>: look the symbol up; when it is missing, warn and \<^verbatim>\<open>break\<close>
  out of the \<^verbatim>\<open>switch\<close> (\<^verbatim>\<open>useAngle\<close> is still \<^verbatim>\<open>false\<close> there); otherwise go on with
  the rest of the block, which is the last argument.
\<close>

definition GET_SYMBOL ::
  "string \<Rightarrow> 'f option \<Rightarrow> world \<Rightarrow> ('f \<Rightarrow> world \<Rightarrow> bool \<times> world) \<Rightarrow> bool \<times> world" where
  "GET_SYMBOL symbol found w rest =
     (let w = emit (Dlsym symbol) w
      in case found of
           None \<Rightarrow>
             (False, emit (Log ALOGW (''Cannot find '' @ symbol @
                                      '' in ANGLE feature-support library'')) w)
         | Some f \<Rightarrow> rest f w)"

text \<open>
  \<^verbatim>\<open>case 2\<close> of the \<^verbatim>\<open>switch\<close>, up to its \<^verbatim>\<open>break\<close>: the value of \<^verbatim>\<open>useAngle\<close> and the
  world at that point. \<open>ms\<close> is the state of the library after the version negotiation.
\<close>

definition checkAngleRules_case_2 ::
  "'ms feature_lib \<Rightarrow> 'ms \<Rightarrow> string \<Rightarrow> string \<Rightarrow> GraphicsEnv \<Rightarrow> world \<Rightarrow> bool \<times> world" where
  "checkAngleRules_case_2 so ms manufacturer model g w =
     (let w = emit (Log ALOGV ''Using version %d of ANGLE feature-support library'') w in
      GET_SYMBOL ''ANGLEAndroidParseRulesString'' (sym_ANGLEAndroidParseRulesString so) w
        (\<lambda>ANGLEAndroidParseRulesString w.
      GET_SYMBOL ''ANGLEGetSystemInfo'' (sym_ANGLEGetSystemInfo so) w
        (\<lambda>ANGLEGetSystemInfo w.
      GET_SYMBOL ''ANGLEAddDeviceInfoToSystemInfo'' (sym_ANGLEAddDeviceInfoToSystemInfo so) w
        (\<lambda>ANGLEAddDeviceInfoToSystemInfo w.
      GET_SYMBOL ''ANGLEShouldBeUsedForApplication'' (sym_ANGLEShouldBeUsedForApplication so) w
        (\<lambda>ANGLEShouldBeUsedForApplication w.
      GET_SYMBOL ''ANGLEFreeRulesHandle'' (sym_ANGLEFreeRulesHandle so) w
        (\<lambda>ANGLEFreeRulesHandle w.
      GET_SYMBOL ''ANGLEFreeSystemInfoHandle'' (sym_ANGLEFreeSystemInfoHandle so) w
        (\<lambda>ANGLEFreeSystemInfoHandle w.
      (let ((parsed, rulesHandle, rulesVersion), ms) =
             ANGLEAndroidParseRulesString (mRulesBuffer g) ms;
           w = emit (Call_ANGLEAndroidParseRulesString (mRulesBuffer g)) w
       in if \<not> parsed then
            (False, emit (Log ALOGW ''ANGLE feature-support library cannot parse rules file'') w)
          else
       (let ((obtained, systemInfoHandle), ms) = ANGLEGetSystemInfo ms;
            w = emit Call_ANGLEGetSystemInfo w
        in if \<not> obtained then
             (False,
              emit (Log ALOGW ''ANGLE feature-support library cannot obtain SystemInfo'') w)
           else
       (let (added, ms) = ANGLEAddDeviceInfoToSystemInfo manufacturer model systemInfoHandle ms;
            w = emit (Call_ANGLEAddDeviceInfoToSystemInfo manufacturer model systemInfoHandle) w
        in if \<not> added then
             (False,
              emit (Log ALOGW
                ''ANGLE feature-support library cannot add device info to SystemInfo'') w)
           else
       (let (useAngle, ms) =
              ANGLEShouldBeUsedForApplication rulesHandle rulesVersion systemInfoHandle
                (mAngleAppName g) ms;
            w = emit (Call_ANGLEShouldBeUsedForApplication rulesHandle rulesVersion
                        systemInfoHandle (mAngleAppName g)) w;
            (_, ms) = ANGLEFreeRulesHandle rulesHandle ms;
            w = emit (Call_ANGLEFreeRulesHandle rulesHandle) w;
            (_, ms) = ANGLEFreeSystemInfoHandle systemInfoHandle ms;
            w = emit (Call_ANGLEFreeSystemInfoHandle systemInfoHandle) w
        in (useAngle, w))))))))))))"

definition checkAngleRules ::
  "'ms platform \<Rightarrow> 'ms feature_lib \<Rightarrow> GraphicsEnv \<Rightarrow> world \<Rightarrow> bool \<times> world" where
  "checkAngleRules p so g w =
     (let manufacturer = property_get p ''ro.product.manufacturer'' ''UNSET'';
          model = property_get p ''ro.product.model'' ''UNSET'';
          w = emit (Dlsym ''ANGLEGetFeatureSupportUtilAPIVersion'') w
      in case sym_ANGLEGetFeatureSupportUtilAPIVersion so of
           None \<Rightarrow>
             (False,
              emit (Log ALOGW ''Cannot find ANGLEGetFeatureSupportUtilAPIVersion function'') w)
         | Some ANGLEGetFeatureSupportUtilAPIVersion \<Rightarrow>
             (let ((negotiated, versionToUse), ms) =
                    ANGLEGetFeatureSupportUtilAPIVersion CURRENT_ANGLE_API_VERSION (lib_state so);
                  w = emit (Call_ANGLEGetFeatureSupportUtilAPIVersion CURRENT_ANGLE_API_VERSION) w
              in if \<not> negotiated then
                   (False,
                    emit (Log ALOGW
                      (''Cannot use ANGLE feature-support library, it is older than supported '' @
                       ''by EGL, requested version %u'')) w)
                 else
                   (let (useAngle, w) =
                          (if versionToUse = 2 then
                             checkAngleRules_case_2 so ms manufacturer model g w
                           else
                             (False,
                              emit (Log ALOGW
                                ''Version %u of ANGLE feature-support library is NOT supported.'')
                                w))
                    in (useAngle,
                        emit (Log ALOGV ''Close temporarily-loaded ANGLE opt-in/out logic'') w))))"

definition updateUseAngle :: "'ms platform \<Rightarrow> GraphicsEnv \<Rightarrow> world \<Rightarrow> GraphicsEnv \<times> world" where
  "updateUseAngle p g w =
     (let g = g\<lparr>mUseAngle := False\<rparr>;
          ANGLE_PREFER_ANGLE = ''angle'';
          ANGLE_PREFER_NATIVE = ''native''
      in if mAngleDeveloperOptIn g = ANGLE_PREFER_ANGLE then
           (g\<lparr>mUseAngle := True\<rparr>,
            emit (Log ALOGV ''User set Developer Options to force the use of ANGLE'') w)
         else if mAngleDeveloperOptIn g = ANGLE_PREFER_NATIVE then
           (g\<lparr>mUseAngle := False\<rparr>,
            emit (Log ALOGV ''User set Developer Options to force the use of Native'') w)
         else
           (let prop = property_get p ''debug.angle.enable'' ''0'';
                (featureSo, g, w) =
                  (if atoi p prop \<noteq> 0 then loadLibrary p ''feature_support'' g w
                   else (None, g, w))
            in case featureSo of
                 Some so \<Rightarrow>
                   (let w = emit (Log ALOGV ''loaded ANGLE's opt-in/out logic from namespace'') w;
                        (useAngle, w) = checkAngleRules p so g w;
                        g = g\<lparr>mUseAngle := useAngle\<rparr>;
                        w = emit Dlclose w
                    in (g, w))
               | None \<Rightarrow>
                   (g, emit (Log ALOGV
                      ''Could not load the ANGLE opt-in/out logic, cannot use ANGLE.'') w)))"

subsection \<open>Configuring the alternate implementation\<close>

text \<open>
  \<^verbatim>\<open>rulesFd\<close> and \<^verbatim>\<open>rulesOffset\<close> are only handed to \<^verbatim>\<open>lseek\<close> and \<^verbatim>\<open>read\<close>, which
  take every value. \<^verbatim>\<open>rulesLength\<close> enters the arithmetic of the buffer size, so it is
  the 64-bit \<^verbatim>\<open>long\<close> of the source, read as signed by \<open>sint\<close>, and \<open>rulesLength + 1\<close>
  wraps around as the machine addition does: at \<open>LONG_MAX\<close> it is \<open>LONG_MIN\<close>.

  When \<open>rulesLength + 1\<close> is negative (\<open>rulesLength < -1\<close>, or \<open>rulesLength = LONG_MAX\<close>)
  the size, converted to \<^verbatim>\<open>size_t\<close>, is beyond what a vector can hold and its
  constructor throws \<^verbatim>\<open>std::length_error\<close>. A buffer that is not empty is allocated,
  and the allocation throws \<^verbatim>\<open>std::bad_alloc\<close> when the platform cannot provide the
  bytes. With \<open>rulesLength = -1\<close> the vector is empty and the store of the terminator
  at index 0 is outside it. Each of these ends the model with an error.
\<close>

datatype error = LengthError | BadAlloc | OutOfBoundsWrite

definition LONG_MAX :: int where
  "LONG_MAX = 2 ^ 63 - 1"

definition NUL :: char where
  "NUL = CHR 0x00"

definition setAngleInfo ::
  "'ms platform \<Rightarrow> string \<Rightarrow> string \<Rightarrow> string \<Rightarrow> int \<Rightarrow> int \<Rightarrow> 64 word \<Rightarrow> GraphicsEnv \<Rightarrow> world \<Rightarrow>
   error + GraphicsEnv \<times> world" where
  "setAngleInfo p path appName developerOptIn rulesFd rulesOffset rulesLength g w =
     (let w = emit (Log ALOGV ''setting ANGLE path to %s'') w;
          g = g\<lparr>mAnglePath := path\<rparr>;
          w = emit (Log ALOGV ''setting ANGLE app name to %s'') w;
          g = g\<lparr>mAngleAppName := appName\<rparr>;
          w = emit (Log ALOGV ''setting ANGLE application opt-in to %s'') w;
          g = g\<lparr>mAngleDeveloperOptIn := developerOptIn\<rparr>;
          w = posix_lseek rulesFd rulesOffset w;
          bufferSize = sint (rulesLength + 1)
      in if bufferSize < 0 then Inl LengthError
         else if bufferSize \<noteq> 0 \<and> \<not> allocates p (nat bufferSize) then Inl BadAlloc
         else
           (let g = g\<lparr>mRulesBuffer := replicate (nat bufferSize) NUL\<rparr>
            in if sint rulesLength < 0 then Inl OutOfBoundsWrite
               else
                 (let ((numBytesRead, bytes), w) =
                        posix_read rulesFd (nat (sint rulesLength)) w;
                      g = g\<lparr>mRulesBuffer := bytes @ drop (length bytes) (mRulesBuffer g)\<rparr>;
                      (numBytesRead, w) =
                        (if numBytesRead < 0 then
                           (0, emit (Log ALOGE ''Cannot read rules file: numBytesRead = %zd'') w)
                         else if numBytesRead = 0 then
                           (numBytesRead, emit (Log ALOGW ''Empty rules file'') w)
                         else (numBytesRead, w));
                      w = (if numBytesRead \<noteq> sint rulesLength then
                             emit (Log ALOGW
                               (''Did not read all of the necessary bytes from the rules file.'' @
                                ''expected: %ld, got: %zd'')) w
                           else w);
                      g = g\<lparr>mRulesBuffer := (mRulesBuffer g)[nat numBytesRead := NUL]\<rparr>
                  in Inr (updateUseAngle p g w))))"

text \<open>What a callee that takes the buffer as a C string sees: the bytes before the first NUL.\<close>

definition c_str :: "char list \<Rightarrow> char list" where
  "c_str buf = takeWhile (\<lambda>c. c \<noteq> NUL) buf"

subsection \<open>Sequences of calls\<close>

text \<open>
  The public operations that write to the object or to the world, and a run of them in
  order, each on the platform as it is at that call. A run stops at the first error.
\<close>

datatype api_call =
    SetDriverPath string
  | SetAngleInfo string string string int int "64 word"
  | SetLayerPaths "NativeLoaderNamespace option" string
  | SetDebugLayers string
  | SetDebugLayersGLES string
  | GetDriverNamespace
  | GetAngleNamespace
  | ShouldUseAngle
  | ShouldUseAngle_appName string

fun api_step :: "'ms platform \<Rightarrow> api_call \<Rightarrow> GraphicsEnv \<Rightarrow> world \<Rightarrow> error + GraphicsEnv \<times> world" where
  "api_step p (SetDriverPath path) g w = Inr (setDriverPath path g w)"
| "api_step p (SetAngleInfo path appName developerOptIn rulesFd rulesOffset rulesLength) g w =
     setAngleInfo p path appName developerOptIn rulesFd rulesOffset rulesLength g w"
| "api_step p (SetLayerPaths appNamespace layerPaths) g w =
     Inr (setLayerPaths appNamespace layerPaths g w)"
| "api_step p (SetDebugLayers layers) g w = Inr (setDebugLayers layers g, w)"
| "api_step p (SetDebugLayersGLES layers) g w = Inr (setDebugLayersGLES layers g, w)"
| "api_step p GetDriverNamespace g w = Inr (snd (getDriverNamespace p g w))"
| "api_step p GetAngleNamespace g w = Inr (snd (getAngleNamespace p g w))"
| "api_step p ShouldUseAngle g w = Inr (g, snd (shouldUseAngle g w))"
| "api_step p (ShouldUseAngle_appName appName) g w =
     Inr (g, snd (shouldUseAngle_appName appName g w))"

fun run :: "('ms platform \<times> api_call) list \<Rightarrow> GraphicsEnv \<Rightarrow> world \<Rightarrow> error + GraphicsEnv \<times> world" where
  "run [] g w = Inr (g, w)"
| "run ((p, c) # cs) g w =
     (case api_step p c g w of
        Inl e \<Rightarrow> Inl e
      | Inr (g', w') \<Rightarrow> run cs g' w')"

subsection \<open>Vocabulary for the properties\<close>

text \<open>Events that touch the feature-support library: everything but a log line.\<close>

fun is_module_event :: "event \<Rightarrow> bool" where
  "is_module_event (Log _ _) = False"
| "is_module_event _ = True"

text \<open>Calls of the six rule-evaluation entry points of the version-2 API.\<close>

fun is_rule_evaluation_call :: "event \<Rightarrow> bool" where
  "is_rule_evaluation_call (Call_ANGLEAndroidParseRulesString _) = True"
| "is_rule_evaluation_call Call_ANGLEGetSystemInfo = True"
| "is_rule_evaluation_call (Call_ANGLEAddDeviceInfoToSystemInfo _ _ _) = True"
| "is_rule_evaluation_call (Call_ANGLEShouldBeUsedForApplication _ _ _ _) = True"
| "is_rule_evaluation_call (Call_ANGLEFreeRulesHandle _) = True"
| "is_rule_evaluation_call (Call_ANGLEFreeSystemInfoHandle _) = True"
| "is_rule_evaluation_call _ = False"

text \<open>
  The outcome of the version negotiation of a loaded library, as \<open>checkAngleRules\<close> makes
  it: \<open>None\<close> when the entry point is absent, else what the entry point returns (its
  \<^verbatim>\<open>bool\<close> and the version it writes back) for the version the platform requests.
\<close>

definition negotiate :: "'ms feature_lib \<Rightarrow> (bool \<times> 32 word) option" where
  "negotiate so =
     (case sym_ANGLEGetFeatureSupportUtilAPIVersion so of
        None \<Rightarrow> None
      | Some f \<Rightarrow> Some (fst (f CURRENT_ANGLE_API_VERSION (lib_state so))))"

definition negotiation_fails :: "'ms feature_lib \<Rightarrow> bool" where
  "negotiation_fails so = (case negotiate so of None \<Rightarrow> True | Some (ok, v) \<Rightarrow> \<not> ok)"

definition version_unsupported :: "'ms feature_lib \<Rightarrow> bool" where
  "version_unsupported so = (case negotiate so of None \<Rightarrow> False | Some (ok, v) \<Rightarrow> ok \<and> v \<noteq> 2)"

definition entry_point_missing :: "'ms feature_lib \<Rightarrow> bool" where
  "entry_point_missing so \<longleftrightarrow>
     Option.is_none (sym_ANGLEAndroidParseRulesString so) \<or>
     Option.is_none (sym_ANGLEGetSystemInfo so) \<or>
     Option.is_none (sym_ANGLEAddDeviceInfoToSystemInfo so) \<or>
     Option.is_none (sym_ANGLEShouldBeUsedForApplication so) \<or>
     Option.is_none (sym_ANGLEFreeRulesHandle so) \<or>
     Option.is_none (sym_ANGLEFreeSystemInfoHandle so)"

text \<open>
  What the decision engine leaves alone: every field but the cached decision, the
  alternate-implementation namespace and its once-only flag is the same in both objects.
\<close>

definition angle_frame :: "GraphicsEnv \<Rightarrow> GraphicsEnv \<Rightarrow> bool" where
  "angle_frame g g' \<longleftrightarrow>
     mDriverPath g' = mDriverPath g \<and> mAnglePath g' = mAnglePath g \<and>
     mAngleAppName g' = mAngleAppName g \<and>
     mAngleDeveloperOptIn g' = mAngleDeveloperOptIn g \<and>
     mRulesBuffer g' = mRulesBuffer g \<and> mDebugLayers g' = mDebugLayers g \<and>
     mDebugLayersGLES g' = mDebugLayersGLES g \<and> mLayerPaths g' = mLayerPaths g \<and>
     mAppNamespace g' = mAppNamespace g \<and> mDriverNamespace g' = mDriverNamespace g \<and>
     getDriverNamespace_once g' = getDriverNamespace_once g"

text \<open>
  The log lines of \<open>setAngleInfo\<close> and of the functions it calls (\<open>updateUseAngle\<close>,
  \<open>loadLibrary\<close>, \<open>getAngleNamespace\<close>, \<open>checkAngleRules\<close>), in the order of the source.
  An event is one of a \<open>setAngleInfo\<close> call when it is not a log line, or is one of these.
\<close>

definition setAngleInfo_log_lines :: "string list" where
  "setAngleInfo_log_lines =
     [''setting ANGLE path to %s'',
      ''setting ANGLE app name to %s'',
      ''setting ANGLE application opt-in to %s'',
      ''Cannot read rules file: numBytesRead = %zd'',
      ''Empty rules file'',
      ''Did not read all of the necessary bytes from the rules file.expected: %ld, got: %zd'',
      ''User set Developer Options to force the use of ANGLE'',
      ''User set Developer Options to force the use of Native'',
      ''loaded ANGLE's opt-in/out logic from namespace'',
      ''Could not load the ANGLE opt-in/out logic, cannot use ANGLE.'',
      ''dlopen_ext from APK (%s) success at %p'',
      ''dlopen_ext(%s) failed: %s'',
      ''Could not create ANGLE namespace from default'',
      ''Cannot find ANGLEGetFeatureSupportUtilAPIVersion function'',
      ''Cannot use ANGLE feature-support library, it is older than supported by EGL, requested version %u'',
      ''Version %u of ANGLE feature-support library is NOT supported.'',
      ''Close temporarily-loaded ANGLE opt-in/out logic'',
      ''Using version %d of ANGLE feature-support library'',
      ''Cannot find ANGLEAndroidParseRulesString in ANGLE feature-support library'',
      ''Cannot find ANGLEGetSystemInfo in ANGLE feature-support library'',
      ''Cannot find ANGLEAddDeviceInfoToSystemInfo in ANGLE feature-support library'',
      ''Cannot find ANGLEShouldBeUsedForApplication in ANGLE feature-support library'',
      ''Cannot find ANGLEFreeRulesHandle in ANGLE feature-support library'',
      ''Cannot find ANGLEFreeSystemInfoHandle in ANGLE feature-support library'',
      ''ANGLE feature-support library cannot parse rules file'',
      ''ANGLE feature-support library cannot obtain SystemInfo'',
      ''ANGLE feature-support library cannot add device info to SystemInfo'']"

fun is_setAngleInfo_event :: "event \<Rightarrow> bool" where
  "is_setAngleInfo_event (Log level line) = (line \<in> set setAngleInfo_log_lines)"
| "is_setAngleInfo_event _ = True"

text \<open>
  The second world has the trace of the first followed by events that all satisfy the
  predicate.
\<close>

definition appends :: "(event \<Rightarrow> bool) \<Rightarrow> world \<Rightarrow> world \<Rightarrow> bool" where
  "appends P w w' \<longleftrightarrow>
     take (length (trace w)) (trace w') = trace w \<and>
     list_all P (drop (length (trace w)) (trace w'))"

text \<open>
  The name list that \<open>getSystemNativeLibraries\<close> reads for a library type: \<open>None\<close> when
  the config file cannot be read.
\<close>

definition libraryNames :: "'ms platform \<Rightarrow> NativeLibrary \<Rightarrow> string list option" where
  "libraryNames p type =
     (case readConfig p
             (insertVndkVersionStr p
                ((case getenv p ''ANDROID_ROOT'' of Some r \<Rightarrow> r | None \<Rightarrow> ''/system'') @
                 kNativeLibrariesSystemConfigPath type)) [] of
        (False, soNames) \<Rightarrow> None
      | (True, soNames) \<Rightarrow> Some soNames)"

text \<open>
  The string of names that a link step exposes for a library type: the names joined by
  colons, empty when the config file cannot be read.
\<close>

definition sonames :: "'ms platform \<Rightarrow> NativeLibrary \<Rightarrow> string" where
  "sonames p type = (case libraryNames p type of None \<Rightarrow> [] | Some names \<Rightarrow> Join names (CHR '':''))"

text \<open>
  The bytes a descriptor offers to a read of \<open>count\<close> bytes made after a seek to
  \<open>offset\<close>: none when the descriptor is not open.
\<close>

definition offered :: "int \<Rightarrow> int \<Rightarrow> nat \<Rightarrow> world \<Rightarrow> char list" where
  "offered fd offset count w =
     (case fds w fd of
        None \<Rightarrow> []
      | Some f \<Rightarrow> take count (drop (if offset < 0 then fd_pos f else nat offset) (fd_data f)))"

subsection \<open>Concrete platforms, libraries and descriptors\<close>

text \<open>
  A platform on which nothing is set, no file can be read and no library loads; every
  allocation succeeds.
\<close>

definition bare_platform :: "unit platform" where
  "bare_platform =
     \<lparr>BIONIC = True,
      GetProperty = (\<lambda>key default_value. default_value),
      property_get = (\<lambda>key default_value. default_value),
      atoi = (\<lambda>s. if s = ''1'' then 1 else 0),
      getenv = (\<lambda>name. None),
      ReadFileToString = (\<lambda>path. None),
      android_get_exported_namespace = (\<lambda>name. None),
      android_create_namespace = (\<lambda>name ld_path default_path type permitted parent. None),
      android_link_namespaces = (\<lambda>from to sonames. False),
      android_dlopen_ext = (\<lambda>name ns. None),
      allocates = (\<lambda>size. True)\<rparr>"

text \<open>
  A library with all seven entry points, which negotiates version 2, parses any rules
  into handle 11 (rules version 1), gives system-info handle 22, and answers the other
  calls with the given values.
\<close>

definition complete_lib :: "bool \<Rightarrow> bool \<Rightarrow> unit feature_lib" where
  "complete_lib added use =
     \<lparr>lib_state = (),
      sym_ANGLEGetFeatureSupportUtilAPIVersion = Some (\<lambda>v ms. ((True, 2), ms)),
      sym_ANGLEAndroidParseRulesString = Some (\<lambda>rules ms. ((True, 11, 1), ms)),
      sym_ANGLEGetSystemInfo = Some (\<lambda>ms. ((True, 22), ms)),
      sym_ANGLEAddDeviceInfoToSystemInfo = Some (\<lambda>mfr model h ms. (added, ms)),
      sym_ANGLEShouldBeUsedForApplication = Some (\<lambda>rh rv sh app ms. (use, ms)),
      sym_ANGLEFreeRulesHandle = Some (\<lambda>h ms. (True, ms)),
      sym_ANGLEFreeSystemInfoHandle = Some (\<lambda>h ms. (True, ms))\<rparr>"

text \<open>
  A platform with the enablement property set to \<open>1\<close>, on which the feature-support
  library loads as the given library.
\<close>

definition platform_with :: "unit feature_lib \<Rightarrow> unit platform" where
  "platform_with lib =
     bare_platform
       \<lparr>property_get := (\<lambda>key default_value.
                           if key = ''debug.angle.enable'' then ''1'' else default_value),
        android_dlopen_ext := (\<lambda>name ns.
                           if name = ''libfeature_support_angle.so'' then Some lib else None)\<rparr>"

text \<open>
  A platform on which the driver namespace can be built: the exported \<open>vndk\<close> namespace
  is 1, every namespace creation gives 2, every link succeeds, and every file reads as
  the two names \<open>libc.so\<close> and \<open>libm.so\<close>.
\<close>

definition linker_platform :: "unit platform" where
  "linker_platform =
     bare_platform
       \<lparr>ReadFileToString := (\<lambda>path. Some ''libc.so\<newline>libm.so\<newline>''),
        android_get_exported_namespace := (\<lambda>name. if name = ''vndk'' then Some 1 else None),
        android_create_namespace := (\<lambda>name ld_path default_path type permitted parent. Some 2),
        android_link_namespaces := (\<lambda>from to sonames. True)\<rparr>"

text \<open>A world in which descriptor 3 is open on 40 bytes \<open>x\<close>, at position 0.\<close>

definition world_40 :: world where
  "world_40 =
     \<lparr>fds = (\<lambda>fd. if fd = 3 then Some \<lparr>fd_data = replicate 40 (CHR ''x''), fd_pos = 0\<rparr>
                   else None),
      trace = []\<rparr>"

section \<open>Properties\<close>

subsection \<open>Once-only configuration fields\<close>

lemma setDriverPath_keeps_set_path:
  "mDriverPath g \<noteq> [] \<Longrightarrow> mDriverPath (fst (setDriverPath path g w)) = mDriverPath g"
  by (simp add: setDriverPath_def)

lemma fold_setDriverPath_keeps_set_path:
  "mDriverPath g \<noteq> [] \<Longrightarrow>
   mDriverPath (fst (fold (\<lambda>path (g, w). setDriverPath path g w) ps (g, w))) = mDriverPath g"
proof (induction ps arbitrary: g w)
  case Nil
  then show ?case by simp
next
  case (Cons path ps)
  obtain g1 w1 where step: "setDriverPath path g w = (g1, w1)"
    by (cases "setDriverPath path g w")
  with Cons.prems have "mDriverPath g1 = mDriverPath g"
    using setDriverPath_keeps_set_path [of g path w] by simp
  with Cons.IH [of g1 w1] Cons.prems step show ?case by simp
qed

text \<open>
  C8. Starting with no vendor driver path stored, after \<open>setDriverPath p1\<close> with a
  non-empty \<open>p1\<close> and then \<open>setDriverPath p2\<close> the stored path is \<open>p1\<close>; it stays \<open>p1\<close>
  through any further \<open>setDriverPath\<close> calls \<open>ps\<close>.
\<close>

theorem setDriverPath_first_write_wins:
  assumes "mDriverPath g = []" and "p1 \<noteq> []"
  shows "mDriverPath
           (fst (fold (\<lambda>path (g, w). setDriverPath path g w) (p1 # p2 # ps) (g, w))) = p1"
proof -
  obtain g1 w1 where step: "setDriverPath p1 g w = (g1, w1)"
    by (cases "setDriverPath p1 g w")
  with assms have g1: "mDriverPath g1 = p1"
    by (auto simp: setDriverPath_def)
  with assms have "mDriverPath g1 \<noteq> []" by simp
  from fold_setDriverPath_keeps_set_path [OF this, of "p2 # ps" w1] g1 step
  show ?thesis by simp
qed

theorem setDriverPath_first_write_wins_witness:
  "mDriverPath getInstance = [] \<and> ''/vendor/a'' \<noteq> [] \<and>
   mDriverPath
     (fst (fold (\<lambda>path (g, w). setDriverPath path g w) [''/vendor/a'', ''/vendor/b'']
        (getInstance, world0))) = ''/vendor/a''"
proof -
  have e: "mDriverPath getInstance = []" by (simp add: getInstance_def)
  have n: "''/vendor/a'' \<noteq> []" by simp
  from setDriverPath_first_write_wins [OF e n, of "''/vendor/b''" "[]" world0] e n
  show ?thesis by simp
qed

lemma setLayerPaths_latched:
  "mLayerPaths g \<noteq> [] \<Longrightarrow> fst (setLayerPaths ns p g w) = g"
  by (simp add: setLayerPaths_def)

lemma fold_setLayerPaths_latched:
  "mLayerPaths g \<noteq> [] \<Longrightarrow>
   fst (fold (\<lambda>(ns, p) (g, w). setLayerPaths ns p g w) calls (g, w)) = g"
proof (induction calls arbitrary: w)
  case Nil
  then show ?case by simp
next
  case (Cons c calls)
  obtain ns p where c: "c = (ns, p)" by (cases c)
  obtain g1 w1 where step: "setLayerPaths ns p g w = (g1, w1)"
    by (cases "setLayerPaths ns p g w")
  with Cons.prems have "g1 = g"
    using setLayerPaths_latched [of g ns p w] by simp
  with Cons.IH [of w1] Cons.prems step c show ?case by simp
qed

text \<open>
  C10. The guard of \<open>setLayerPaths\<close> looks at the stored layer-paths string only. With
  no layer paths stored, a call with an empty paths string stores its namespace
  reference and leaves the paths empty, so that the next call still replaces both
  fields; a call with a non-empty paths string \<open>p\<close> stores both, and after it no
  sequence of \<open>setLayerPaths\<close> calls changes either field.
\<close>

theorem setLayerPaths_guard_on_paths_only:
  assumes "mLayerPaths g = []"
  shows "(let g1 = fst (setLayerPaths ns1 [] g w) in
            mAppNamespace g1 = ns1 \<and> mLayerPaths g1 = [] \<and>
            (let g2 = fst (setLayerPaths ns2 p2 g1 w1) in
               mLayerPaths g2 = p2 \<and> mAppNamespace g2 = ns2)) \<and>
         (p \<noteq> [] \<longrightarrow>
           (let g1 = fst (setLayerPaths ns p g w) in
              mLayerPaths g1 = p \<and> mAppNamespace g1 = ns \<and>
              (let g2 = fst (fold (\<lambda>(ns', p') (g, w). setLayerPaths ns' p' g w) calls (g1, w2))
               in mLayerPaths g2 = p \<and> mAppNamespace g2 = ns)))"
proof -
  have first: "fst (setLayerPaths a b g w) = g\<lparr>mLayerPaths := b, mAppNamespace := a\<rparr>" for a b
    using assms by (simp add: setLayerPaths_def)
  have part1: "let g1 = fst (setLayerPaths ns1 [] g w) in
            mAppNamespace g1 = ns1 \<and> mLayerPaths g1 = [] \<and>
            (let g2 = fst (setLayerPaths ns2 p2 g1 w1) in
               mLayerPaths g2 = p2 \<and> mAppNamespace g2 = ns2)"
    by (simp add: first) (simp add: setLayerPaths_def)
  have part2: "let g1 = fst (setLayerPaths ns p g w) in
              mLayerPaths g1 = p \<and> mAppNamespace g1 = ns \<and>
              (let g2 = fst (fold (\<lambda>(ns', p') (g, w). setLayerPaths ns' p' g w) calls (g1, w2))
               in mLayerPaths g2 = p \<and> mAppNamespace g2 = ns)" if "p \<noteq> []"
  proof -
    let ?g1 = "g\<lparr>mLayerPaths := p, mAppNamespace := ns\<rparr>"
    have "mLayerPaths ?g1 \<noteq> []" using that by simp
    from fold_setLayerPaths_latched [OF this, of calls w2] show ?thesis
      by (simp add: first)
  qed
  from part1 part2 show ?thesis by blast
qed

theorem setLayerPaths_guard_on_paths_only_witness:
  "mLayerPaths getInstance = [] \<and>
   (let g1 = fst (setLayerPaths (Some 7) [] getInstance world0) in
      mAppNamespace g1 = Some 7 \<and> mLayerPaths g1 = [] \<and>
      (let g2 = fst (setLayerPaths (Some 8) ''/data/layers'' g1 world0) in
         mLayerPaths g2 = ''/data/layers'' \<and> mAppNamespace g2 = Some 8)) \<and>
   ''/data/layers'' \<noteq> [] \<and>
   (let g1 = fst (setLayerPaths (Some 8) ''/data/layers'' getInstance world0) in
      mLayerPaths g1 = ''/data/layers'' \<and> mAppNamespace g1 = Some 8 \<and>
      (let g2 = fst (fold (\<lambda>(ns', p') (g, w). setLayerPaths ns' p' g w)
                       [(Some 9, ''/other''), (None, [])] (g1, world0))
       in mLayerPaths g2 = ''/data/layers'' \<and> mAppNamespace g2 = Some 8))"
proof -
  have e: "mLayerPaths getInstance = []" by (simp add: getInstance_def)
  from setLayerPaths_guard_on_paths_only [OF e, of "Some 7" world0 "Some 8" "''/data/layers''"
      world0 "''/data/layers''" "Some 8" "[(Some 9, ''/other''), (None, [])]" world0] e
  show ?thesis by simp
qed

subsection \<open>The identity check of the query\<close>

text \<open>
  C6. When the queried name differs from the configured target application name,
  \<open>shouldUseAngle_appName\<close> returns \<open>False\<close> and logs the mismatch, and what it returns is
  the same for every value \<open>cached\<close> of the cached decision: the decision is not read.
\<close>

theorem shouldUseAngle_appName_mismatch:
  assumes "appName \<noteq> mAngleAppName g"
  shows "shouldUseAngle_appName appName (g\<lparr>mUseAngle := cached\<rparr>) w =
           (False, emit (Log ALOGE ''App name does not match: expected %s, got %s'') w)"
  using assms by (simp add: shouldUseAngle_appName_def)

theorem shouldUseAngle_appName_mismatch_witness:
  "''X'' \<noteq> mAngleAppName (getInstance\<lparr>mAngleAppName := ''Y''\<rparr>) \<and>
   shouldUseAngle_appName ''X'' (getInstance\<lparr>mAngleAppName := ''Y'', mUseAngle := True\<rparr>) world0 =
     (False, emit (Log ALOGE ''App name does not match: expected %s, got %s'') world0)"
proof -
  have n: "''X'' \<noteq> mAngleAppName (getInstance\<lparr>mAngleAppName := ''Y''\<rparr>)" by simp
  from shouldUseAngle_appName_mismatch [OF n, of True world0] n show ?thesis by simp
qed

subsection \<open>Parsing a library name list\<close>

lemma Split_not_Nil: "Split s d \<noteq> []"
  by (induction s) (auto split: list.splits)

lemma Split_pieces_without_delimiter:
  "l \<in> set (Split s d) \<Longrightarrow> set l \<inter> set d = {}"
proof (induction s arbitrary: l)
  case Nil
  then show ?case by simp
next
  case (Cons c s)
  show ?case
  proof (cases "c \<in> set d")
    case True
    with Cons show ?thesis by auto
  next
    case False
    obtain x xs where sp: "Split s d = x # xs"
      using Split_not_Nil [of s d] by (cases "Split s d") auto
    with False Cons.prems have "l = c # x \<or> l \<in> set xs" by auto
    then show ?thesis
    proof
      assume "l = c # x"
      moreover have "set x \<inter> set d = {}" using Cons.IH [of x] sp by simp
      ultimately show ?thesis using False by auto
    next
      assume "l \<in> set xs"
      then show ?thesis using Cons.IH [of l] sp by simp
    qed
  qed
qed

lemma Trim_subset: "set (Trim s) \<subseteq> set s"
proof -
  have "set (dropWhile isspace (rev (dropWhile isspace s))) \<subseteq> set (rev (dropWhile isspace s))"
    by (rule set_dropWhileD [THEN subsetI])
  also have "\<dots> \<subseteq> set s"
    using set_dropWhileD [of _ isspace s] by auto
  finally show ?thesis by (simp add: Trim_def)
qed

lemma Trim_last: "Trim s \<noteq> [] \<Longrightarrow> \<not> isspace (last (Trim s))"
  unfolding Trim_def by (simp add: last_rev hd_dropWhile)

lemma Trim_hd:
  assumes "Trim s \<noteq> []"
  shows "\<not> isspace (hd (Trim s))"
proof -
  let ?ys = "dropWhile isspace s"
  have ys: "?ys = Trim s @ rev (takeWhile isspace (rev ?ys))"
  proof -
    have "Trim s @ rev (takeWhile isspace (rev ?ys)) =
          rev (takeWhile isspace (rev ?ys) @ dropWhile isspace (rev ?ys))"
      unfolding Trim_def by (simp only: rev_append)
    also have "\<dots> = ?ys"
      by (simp only: takeWhile_dropWhile_id rev_rev_ident)
    finally show ?thesis by simp
  qed
  with assms have ne: "?ys \<noteq> []" by (metis append_is_Nil_conv)
  from ys assms have "hd ?ys = hd (Trim s)"
    by (metis hd_append2)
  moreover from ne have "\<not> isspace (hd ?ys)" by (rule hd_dropWhile)
  ultimately show ?thesis by simp
qed

text \<open>
  C9. \<open>readConfig\<close> on a file whose content is \<open>a\<close>, an empty line, \<open>b\<close> followed by a
  space, and \<open>c\<close> after a space, each line ended by a newline, returns success and the
  names \<open>a\<close>, \<open>b\<close>, \<open>c\<close>. For any readable file it returns success, and every name it
  returns is a line of the file (a piece between newlines) after trimming: it is not
  empty, holds no newline, and neither starts nor ends with whitespace.
\<close>

theorem readConfig_names:
  assumes "ReadFileToString p configFile = Some fileContent"
  shows "(fileContent = ''a\<newline>\<newline>b \<newline> c\<newline>'' \<longrightarrow>
            readConfig p configFile [] = (True, [''a'', ''b'', ''c''])) \<and>
         fst (readConfig p configFile []) \<and>
         (\<forall>name \<in> set (snd (readConfig p configFile [])).
            name \<noteq> [] \<and> CHR 0x0A \<notin> set name \<and>
            \<not> isspace (hd name) \<and> \<not> isspace (last name) \<and>
            (\<exists>line \<in> set (Split fileContent ''\<newline>''). name = Trim line))"
proof -
  have example: "readConfig p configFile [] = (True, [''a'', ''b'', ''c''])"
    if "fileContent = ''a\<newline>\<newline>b \<newline> c\<newline>''"
    using assms that by (simp add: readConfig_def Trim_def isspace_def)
  have names: "name \<noteq> [] \<and> CHR 0x0A \<notin> set name \<and>
            \<not> isspace (hd name) \<and> \<not> isspace (last name) \<and>
            (\<exists>line \<in> set (Split fileContent ''\<newline>''). name = Trim line)"
    if "name \<in> set (snd (readConfig p configFile []))" for name
  proof -
    from that assms obtain line where
      line: "line \<in> set (Split fileContent ''\<newline>'')" and name: "name = Trim line"
      and ne: "name \<noteq> []"
      by (auto simp: readConfig_def)
    from Split_pieces_without_delimiter [OF line] have "CHR 0x0A \<notin> set line" by simp
    with Trim_subset [of line] name have "CHR 0x0A \<notin> set name" by auto
    with line name ne Trim_hd [of line] Trim_last [of line] show ?thesis by auto
  qed
  have "fst (readConfig p configFile [])"
    using assms by (simp add: readConfig_def)
  with example names show ?thesis by blast
qed

theorem readConfig_names_witness:
  "readConfig (bare_platform\<lparr>ReadFileToString := (\<lambda>path. Some ''a\<newline>\<newline>b \<newline> c\<newline>'')\<rparr>)
     ''/system/etc/llndk.libraries.txt'' [] = (True, [''a'', ''b'', ''c''])"
proof -
  let ?p = "bare_platform\<lparr>ReadFileToString := (\<lambda>path. Some ''a\<newline>\<newline>b \<newline> c\<newline>'')\<rparr>"
  have r: "ReadFileToString ?p ''/system/etc/llndk.libraries.txt'' = Some ''a\<newline>\<newline>b \<newline> c\<newline>''"
    by simp
  from readConfig_names [OF r] show ?thesis by blast
qed

subsection \<open>What the operations leave alone\<close>

lemma trace_emit [simp]: "trace (emit e w) = trace w @ [e]"
  by (simp add: emit_def)

lemma fds_emit [simp]: "fds (emit e w) = fds w"
  by (simp add: emit_def)

lemma getAngleNamespace_frame:
  "angle_frame g (fst (snd (getAngleNamespace p g w)))"
  by (simp add: getAngleNamespace_def getAngleNamespace_once_body_def angle_frame_def Let_def
           split: option.splits)

lemma loadLibrary_frame:
  "angle_frame g (fst (snd (loadLibrary p name g w)))"
proof -
  obtain ns g1 w1 where a: "getAngleNamespace p g w = (ns, g1, w1)"
    by (cases "getAngleNamespace p g w")
  with getAngleNamespace_frame [of g p w] have "angle_frame g g1" by simp
  with a show ?thesis
    by (simp add: loadLibrary_def Let_def split: option.splits)
qed

lemma updateUseAngle_frame:
  "angle_frame g (fst (updateUseAngle p g w))"
proof -
  let ?g = "g\<lparr>mUseAngle := False\<rparr>"
  obtain so g1 w1 where l: "loadLibrary p ''feature_support'' ?g w = (so, g1, w1)"
    by (cases "loadLibrary p ''feature_support'' ?g w")
  with loadLibrary_frame [of ?g p "''feature_support''" w] have "angle_frame ?g g1"
    by simp
  then have f: "angle_frame g (g1\<lparr>mUseAngle := b\<rparr>)" "angle_frame g g1" for b
    by (simp_all add: angle_frame_def)
  have g: "angle_frame g (g\<lparr>mUseAngle := b\<rparr>)" for b
    by (simp add: angle_frame_def)
  show ?thesis
    using f g l
    by (simp add: updateUseAngle_def Let_def split: option.splits prod.splits)
qed

lemma trace_posix_lseek [simp]: "trace (posix_lseek fd offset w) = trace w"
  by (simp add: posix_lseek_def split: option.splits)

lemma trace_posix_read [simp]: "trace (snd (posix_read fd count w)) = trace w"
  by (simp add: posix_read_def Let_def split: option.splits)

lemma read_after_lseek:
  "fst (posix_read fd count (posix_lseek fd offset w)) =
     (if fds w fd = None then (- 1, [])
      else (int (length (offered fd offset count w)), offered fd offset count w))"
  by (simp add: posix_read_def posix_lseek_def offered_def Let_def split: option.splits)

lemma offered_emit [simp]: "offered fd offset count (emit e w) = offered fd offset count w"
  by (simp add: offered_def)

subsection \<open>The events of a configuration\<close>

lemma appends_iff:
  "appends P w w' \<longleftrightarrow> (\<exists>evs. trace w' = trace w @ evs \<and> list_all P evs)"
proof
  assume "appends P w w'"
  then have "trace w' = trace w @ drop (length (trace w)) (trace w')"
    and "list_all P (drop (length (trace w)) (trace w'))"
    unfolding appends_def by (metis append_take_drop_id, simp)
  then show "\<exists>evs. trace w' = trace w @ evs \<and> list_all P evs" by blast
next
  assume "\<exists>evs. trace w' = trace w @ evs \<and> list_all P evs"
  then show "appends P w w'" by (auto simp: appends_def)
qed

lemma appends_emit: "appends P w w1 \<Longrightarrow> P e \<Longrightarrow> appends P w (emit e w1)"
  by (auto simp: appends_iff)

lemma getAngleNamespace_appends:
  "appends is_setAngleInfo_event w w0 \<Longrightarrow>
   appends is_setAngleInfo_event w (snd (snd (getAngleNamespace p g w0)))"
  by (auto simp: getAngleNamespace_def getAngleNamespace_once_body_def Let_def
        setAngleInfo_log_lines_def split: option.splits intro!: appends_emit)

lemma loadLibrary_appends:
  "appends is_setAngleInfo_event w w0 \<Longrightarrow>
   appends is_setAngleInfo_event w (snd (snd (loadLibrary p name g w0)))"
  by (auto simp: loadLibrary_def Let_def split_def setAngleInfo_log_lines_def
        split: option.splits intro!: appends_emit getAngleNamespace_appends)

lemma checkAngleRules_case_2_appends:
  "appends is_setAngleInfo_event w w0 \<Longrightarrow>
   appends is_setAngleInfo_event w
     (snd (checkAngleRules_case_2 so ms manufacturer model g w0))"
  by (auto simp: checkAngleRules_case_2_def GET_SYMBOL_def Let_def split_def
        setAngleInfo_log_lines_def split: option.splits intro!: appends_emit)

lemma checkAngleRules_appends:
  "appends is_setAngleInfo_event w w0 \<Longrightarrow>
   appends is_setAngleInfo_event w (snd (checkAngleRules p so g w0))"
  by (auto simp: checkAngleRules_def Let_def split_def setAngleInfo_log_lines_def
        split: option.splits intro!: appends_emit checkAngleRules_case_2_appends)

lemma updateUseAngle_appends:
  "appends is_setAngleInfo_event w w0 \<Longrightarrow>
   appends is_setAngleInfo_event w (snd (updateUseAngle p g w0))"
  by (auto simp: updateUseAngle_def Let_def split_def setAngleInfo_log_lines_def
        split: option.splits
        intro!: appends_emit checkAngleRules_appends loadLibrary_appends)

subsection \<open>The steps of a configuration\<close>

lemma offered_nothing [simp]: "offered fd offset 0 w = []"
  by (simp add: offered_def split: option.splits)

lemma terminated_buffer:
  "(xs @ replicate (Suc k) c)[length xs := c] = xs @ replicate (Suc k) c"
  by (simp add: list_update_append)

lemma long_successor:
  assumes "0 \<le> sint (rulesLength :: 64 word)" and "sint rulesLength < LONG_MAX"
  shows "sint (rulesLength + 1) = sint rulesLength + 1"
  using assms
  by (simp add: LONG_MAX_def sint_word_ariths signed_take_bit_int_eq_self)

lemma long_overflow:
  assumes "sint (rulesLength :: 64 word) = LONG_MAX"
  shows "sint (rulesLength + 1) < 0"
proof -
  from assms have "word_of_int (sint rulesLength) = (word_of_int LONG_MAX :: 64 word)"
    by simp
  then have "rulesLength = 9223372036854775807"
    by (simp add: LONG_MAX_def)
  then show ?thesis by simp
qed

text \<open>
  Outside the range the call does not return: below \<open>-1\<close> and at \<open>LONG_MAX\<close> the
  constructor of the buffer throws.
\<close>

lemma setAngleInfo_length_error:
  assumes "sint rulesLength < - 1 \<or> sint rulesLength = LONG_MAX"
  shows "setAngleInfo p path appName developerOptIn rulesFd rulesOffset rulesLength g w =
           Inl LengthError"
proof -
  have "sint (rulesLength + 1) < 0"
  proof (cases "sint rulesLength = LONG_MAX")
    case True
    then show ?thesis by (rule long_overflow)
  next
    case False
    with assms have low: "sint rulesLength < - 1" by simp
    have "- (2 ^ 63) \<le> sint rulesLength"
      using sint_ge [of rulesLength] by simp
    with low have "sint (rulesLength + 1) = sint rulesLength + 1"
      by (simp add: sint_word_ariths signed_take_bit_int_eq_self)
    with low show ?thesis by simp
  qed
  then show ?thesis by (simp add: setAngleInfo_def Let_def)
qed

text \<open>A call that returns had a length in range and a buffer that could be allocated.\<close>

lemma setAngleInfo_returns:
  assumes "setAngleInfo p path appName developerOptIn rulesFd rulesOffset rulesLength g w =
             Inr r"
  shows "0 \<le> sint rulesLength \<and> sint rulesLength < LONG_MAX \<and>
         allocates p (nat (sint rulesLength) + 1)"
proof -
  from assms have size: "\<not> sint (rulesLength + 1) < 0"
    and alloc: "sint (rulesLength + 1) = 0 \<or> allocates p (nat (sint (rulesLength + 1)))"
    and len: "0 \<le> sint rulesLength"
    by (auto simp: setAngleInfo_def Let_def split: if_splits)
  have "sint rulesLength \<le> LONG_MAX"
    using sint_lt [of rulesLength] by (simp add: LONG_MAX_def)
  with size long_overflow [of rulesLength] have max: "sint rulesLength < LONG_MAX"
    by (cases "sint rulesLength = LONG_MAX") simp_all
  from long_successor [OF len max] alloc len
  have "allocates p (nat (sint rulesLength) + 1)"
    by (simp add: nat_add_distrib)
  with len max show ?thesis by simp
qed

text \<open>
  When the length is in range and the buffer can be allocated, \<open>setAngleInfo\<close> is the
  decision evaluation run on the configured object, in a world whose trace is the old
  one, the three setting lines and the diagnostics of the read.
\<close>

lemma setAngleInfo_steps:
  assumes "0 \<le> sint rulesLength" and "sint rulesLength < LONG_MAX"
    and "allocates p (nat (sint rulesLength) + 1)"
  shows "\<exists>w2 diag.
           setAngleInfo p path appName developerOptIn rulesFd rulesOffset rulesLength g w =
           Inr (updateUseAngle p
                  (g\<lparr>mAnglePath := path, mAngleAppName := appName,
                     mAngleDeveloperOptIn := developerOptIn,
                     mRulesBuffer :=
                       offered rulesFd rulesOffset (nat (sint rulesLength)) w @
                       replicate
                         (Suc (nat (sint rulesLength)) -
                          length (offered rulesFd rulesOffset (nat (sint rulesLength)) w))
                         NUL\<rparr>)
                  w2) \<and>
           trace w2 =
             trace w @
             [Log ALOGV ''setting ANGLE path to %s'',
              Log ALOGV ''setting ANGLE app name to %s'',
              Log ALOGV ''setting ANGLE application opt-in to %s''] @ diag \<and>
           set diag \<subseteq>
             {Log ALOGE ''Cannot read rules file: numBytesRead = %zd'',
              Log ALOGW ''Empty rules file'',
              Log ALOGW (''Did not read all of the necessary bytes from the rules file.'' @
                         ''expected: %ld, got: %zd'')}"
proof -
  let ?n = "nat (sint rulesLength)"
  let ?w0 = "emit (Log ALOGV ''setting ANGLE application opt-in to %s'')
               (emit (Log ALOGV ''setting ANGLE app name to %s'')
                 (emit (Log ALOGV ''setting ANGLE path to %s'') w))"
  let ?w1 = "posix_lseek rulesFd rulesOffset ?w0"
  let ?short = "Log ALOGW (''Did not read all of the necessary bytes from the rules file.'' @
                           ''expected: %ld, got: %zd'')"
  have succ: "sint (rulesLength + 1) = sint rulesLength + 1"
    using assms(1,2) by (rule long_successor)
  have n1: "nat (sint rulesLength + 1) = Suc ?n" using assms(1) by simp
  have alloc: "allocates p (Suc ?n)" using assms(3) by simp
  obtain r w1' where rd: "posix_read rulesFd ?n ?w1 = (r, w1')"
    by (cases "posix_read rulesFd ?n ?w1")
  have tr: "trace w1' = trace ?w1"
    using trace_posix_read [of rulesFd ?n ?w1] rd by simp
  have r: "r = (if fds w rulesFd = None then (- 1, [])
                else (int (length (offered rulesFd rulesOffset ?n w)),
                      offered rulesFd rulesOffset ?n w))"
    using read_after_lseek [of rulesFd ?n rulesOffset ?w0] rd by simp
  show ?thesis
  proof (cases "fds w rulesFd")
    case None
    then have off: "offered rulesFd rulesOffset ?n w = []"
      by (simp add: offered_def)
    from None r have r': "r = (- 1, [])" by simp
    let ?w2 = "emit (Log ALOGE ''Cannot read rules file: numBytesRead = %zd'') w1'"
    let ?w3 = "if sint rulesLength \<noteq> 0 then emit ?short ?w2 else ?w2"
    let ?diag = "Log ALOGE ''Cannot read rules file: numBytesRead = %zd'' #
                 (if sint rulesLength \<noteq> 0 then [?short] else [])"
    have "setAngleInfo p path appName developerOptIn rulesFd rulesOffset rulesLength g w =
           Inr (updateUseAngle p
                  (g\<lparr>mAnglePath := path, mAngleAppName := appName,
                     mAngleDeveloperOptIn := developerOptIn,
                     mRulesBuffer := replicate (Suc ?n) NUL\<rparr>) ?w3)"
      using assms(1) alloc by (simp add: setAngleInfo_def succ n1 rd r')
    moreover have "trace ?w3 =
             trace w @
             [Log ALOGV ''setting ANGLE path to %s'',
              Log ALOGV ''setting ANGLE app name to %s'',
              Log ALOGV ''setting ANGLE application opt-in to %s''] @ ?diag"
      using tr by simp
    moreover have "set ?diag \<subseteq>
             {Log ALOGE ''Cannot read rules file: numBytesRead = %zd'',
              Log ALOGW ''Empty rules file'', ?short}"
      by auto
    ultimately show ?thesis
      unfolding off by (intro exI [of _ ?w3] exI [of _ ?diag]) simp
  next
    case (Some f)
    let ?bytes = "offered rulesFd rulesOffset ?n w"
    have len: "length ?bytes \<le> ?n" using Some by (simp add: offered_def)
    from Some r have r': "r = (int (length ?bytes), ?bytes)" by simp
    have buf: "(?bytes @ drop (length ?bytes) (replicate (Suc ?n) NUL))[length ?bytes := NUL] =
               ?bytes @ replicate (Suc ?n - length ?bytes) NUL"
    proof -
      from len obtain k where k: "Suc ?n - length ?bytes = Suc k"
        by (metis Suc_diff_le)
      have "drop (length ?bytes) (replicate (Suc ?n) NUL) = replicate (Suc k) NUL"
        by (simp only: drop_replicate k)
      with k terminated_buffer [of ?bytes k NUL] show ?thesis by (simp only:)
    qed
    let ?w2 = "if ?bytes = [] then emit (Log ALOGW ''Empty rules file'') w1' else w1'"
    let ?w3 = "if int (length ?bytes) \<noteq> sint rulesLength then emit ?short ?w2 else ?w2"
    let ?diag = "(if ?bytes = [] then [Log ALOGW ''Empty rules file''] else []) @
                 (if int (length ?bytes) \<noteq> sint rulesLength then [?short] else [])"
    have "setAngleInfo p path appName developerOptIn rulesFd rulesOffset rulesLength g w =
           Inr (updateUseAngle p
                  (g\<lparr>mAnglePath := path, mAngleAppName := appName,
                     mAngleDeveloperOptIn := developerOptIn,
                     mRulesBuffer := ?bytes @ replicate (Suc ?n - length ?bytes) NUL\<rparr>) ?w3)"
      using assms(1) alloc buf by (simp add: setAngleInfo_def succ n1 rd r')
    moreover have "trace ?w3 =
             trace w @
             [Log ALOGV ''setting ANGLE path to %s'',
              Log ALOGV ''setting ANGLE app name to %s'',
              Log ALOGV ''setting ANGLE application opt-in to %s''] @ ?diag"
      using tr by simp
    moreover have "set ?diag \<subseteq>
             {Log ALOGE ''Cannot read rules file: numBytesRead = %zd'',
              Log ALOGW ''Empty rules file'', ?short}"
      by auto
    ultimately show ?thesis
      by (intro exI [of _ ?w3] exI [of _ ?diag]) simp
  qed
qed

text \<open>
  The same, as the facts the properties below use: the configured fields, the buffer,
  no library event before the evaluation, and only log lines of \<open>setAngleInfo\<close> after
  the first one.
\<close>

lemma setAngleInfo_evaluates:
  assumes "0 \<le> sint rulesLength" and "sint rulesLength < LONG_MAX"
    and "allocates p (nat (sint rulesLength) + 1)"
  obtains g2 w2 where
    "setAngleInfo p path appName developerOptIn rulesFd rulesOffset rulesLength g w =
       Inr (updateUseAngle p g2 w2)"
    "g2 = g\<lparr>mAnglePath := path, mAngleAppName := appName,
             mAngleDeveloperOptIn := developerOptIn,
             mRulesBuffer :=
               offered rulesFd rulesOffset (nat (sint rulesLength)) w @
               replicate
                 (Suc (nat (sint rulesLength)) -
                  length (offered rulesFd rulesOffset (nat (sint rulesLength)) w))
                 NUL\<rparr>"
    "filter is_module_event (trace w2) = filter is_module_event (trace w)"
    "appends is_setAngleInfo_event
       (emit (Log ALOGV ''setting ANGLE path to %s'') w) w2"
proof -
  from setAngleInfo_steps [OF assms, of path appName developerOptIn rulesFd rulesOffset g w]
  obtain w2 diag where
    s: "setAngleInfo p path appName developerOptIn rulesFd rulesOffset rulesLength g w =
          Inr (updateUseAngle p
                 (g\<lparr>mAnglePath := path, mAngleAppName := appName,
                    mAngleDeveloperOptIn := developerOptIn,
                    mRulesBuffer :=
                      offered rulesFd rulesOffset (nat (sint rulesLength)) w @
                      replicate
                        (Suc (nat (sint rulesLength)) -
                         length (offered rulesFd rulesOffset (nat (sint rulesLength)) w))
                        NUL\<rparr>)
                 w2)"
    and t: "trace w2 =
             trace w @
             [Log ALOGV ''setting ANGLE path to %s'',
              Log ALOGV ''setting ANGLE app name to %s'',
              Log ALOGV ''setting ANGLE application opt-in to %s''] @ diag"
    and d: "set diag \<subseteq>
             {Log ALOGE ''Cannot read rules file: numBytesRead = %zd'',
              Log ALOGW ''Empty rules file'',
              Log ALOGW (''Did not read all of the necessary bytes from the rules file.'' @
                         ''expected: %ld, got: %zd'')}"
    by blast
  from d have m: "filter is_module_event diag = []"
    by (auto simp: filter_empty_conv)
  from d have l: "list_all is_setAngleInfo_event diag"
    by (auto simp: list_all_iff setAngleInfo_log_lines_def)
  have "filter is_module_event (trace w2) = filter is_module_event (trace w)"
    using t m by simp
  moreover have "appends is_setAngleInfo_event
       (emit (Log ALOGV ''setting ANGLE path to %s'') w) w2"
    unfolding appends_iff using t l
    by (simp add: setAngleInfo_log_lines_def)
  ultimately show ?thesis using s that by blast
qed

lemma c_str_terminated: "c_str (xs @ replicate (Suc k) NUL) = c_str xs"
proof (cases "\<forall>x\<in>set xs. x \<noteq> NUL")
  case True
  then show ?thesis
    by (simp add: c_str_def takeWhile_append takeWhile_eq_all_conv [THEN iffD2])
next
  case False
  then show ?thesis by (auto simp: c_str_def takeWhile_append)
qed

lemma c_str_without_NUL: "NUL \<notin> set xs \<Longrightarrow> c_str xs = xs"
  by (auto simp: c_str_def takeWhile_eq_all_conv [THEN iffD2])

subsection \<open>Configuring the alternate implementation: the stored path\<close>

text \<open>
  \<open>setAngleInfo\<close> has no once-only guard. On a fresh object, a first call stores the
  non-empty path \<open>/a\<close>; a second call with \<open>/b\<close> replaces it.
\<close>

theorem setAngleInfo_path_overwritten:
  "map_sum id (mAnglePath \<circ> fst)
     (run [(bare_platform, SetAngleInfo ''/a'' ''app'' ''native'' 3 0 0)] getInstance world0) =
     Inr ''/a'' \<and>
   map_sum id (mAnglePath \<circ> fst)
     (run [(bare_platform, SetAngleInfo ''/a'' ''app'' ''native'' 3 0 0),
           (bare_platform, SetAngleInfo ''/b'' ''app'' ''native'' 3 0 0)] getInstance world0) =
     Inr ''/b''"
  by (simp add: setAngleInfo_def updateUseAngle_def posix_lseek_def posix_read_def world0_def
        getInstance_def bare_platform_def emit_def)

text \<open>
  C1, as the code has it: every \<open>setAngleInfo\<close> call whose rules length is in range
  (not negative and below \<open>LONG_MAX\<close>) and whose buffer can be allocated returns and
  stores its path argument as the alternate-implementation path, whatever path was
  stored before: the last write wins. The write is logged as made: the first event the
  call adds to the trace is the line \<open>setting ANGLE path to %s\<close>, and every log line it
  adds after that is one of the setting, read and decision lines of \<open>setAngleInfo\<close> and
  the functions it calls, none of which reports a write as ignored.
\<close>

theorem setAngleInfo_stores_path:
  assumes "0 \<le> sint rulesLength" and "sint rulesLength < LONG_MAX"
    and "allocates p (nat (sint rulesLength) + 1)"
  shows "\<exists>g' w' evs.
           setAngleInfo p path appName developerOptIn rulesFd rulesOffset rulesLength g w =
             Inr (g', w') \<and>
           mAnglePath g' = path \<and>
           trace w' = trace w @ Log ALOGV ''setting ANGLE path to %s'' # evs \<and>
           list_all is_setAngleInfo_event evs"
proof -
  let ?w = "emit (Log ALOGV ''setting ANGLE path to %s'') w"
  from assms obtain g2 w2 where
    s: "setAngleInfo p path appName developerOptIn rulesFd rulesOffset rulesLength g w =
          Inr (updateUseAngle p g2 w2)"
    and g2: "g2 = g\<lparr>mAnglePath := path, mAngleAppName := appName,
             mAngleDeveloperOptIn := developerOptIn,
             mRulesBuffer :=
               offered rulesFd rulesOffset (nat (sint rulesLength)) w @
               replicate
                 (Suc (nat (sint rulesLength)) -
                  length (offered rulesFd rulesOffset (nat (sint rulesLength)) w))
                 NUL\<rparr>"
    and a: "appends is_setAngleInfo_event ?w w2"
    by (rule setAngleInfo_evaluates)
  obtain g' w' where u: "updateUseAngle p g2 w2 = (g', w')"
    by (cases "updateUseAngle p g2 w2")
  with updateUseAngle_frame [of g2 p w2] g2 have path: "mAnglePath g' = path"
    by (simp add: angle_frame_def)
  from updateUseAngle_appends [OF a, of p g2] u
  have "appends is_setAngleInfo_event ?w w'" by simp
  then obtain evs where "trace w' = trace ?w @ evs" and "list_all is_setAngleInfo_event evs"
    unfolding appends_iff by blast
  then have "trace w' = trace w @ Log ALOGV ''setting ANGLE path to %s'' # evs"
    by simp
  with s u path \<open>list_all is_setAngleInfo_event evs\<close> show ?thesis by simp
qed

theorem setAngleInfo_stores_path_witness:
  "0 \<le> sint (0 :: 64 word) \<and> sint (0 :: 64 word) < LONG_MAX \<and>
   allocates bare_platform (nat (sint (0 :: 64 word)) + 1) \<and>
   (\<exists>g' w' evs. setAngleInfo bare_platform ''/b'' ''app'' ''native'' 3 0 0
              (getInstance\<lparr>mAnglePath := ''/a''\<rparr>) world0 = Inr (g', w') \<and>
            mAnglePath g' = ''/b'' \<and>
            trace w' = trace world0 @ Log ALOGV ''setting ANGLE path to %s'' # evs \<and>
            list_all is_setAngleInfo_event evs)"
proof -
  have z: "0 \<le> sint (0 :: 64 word)" "sint (0 :: 64 word) < LONG_MAX"
    "allocates bare_platform (nat (sint (0 :: 64 word)) + 1)"
    by (simp_all add: LONG_MAX_def bare_platform_def)
  from setAngleInfo_stores_path [OF z] z show ?thesis by blast
qed

subsection \<open>Configuring the alternate implementation: the rules buffer\<close>

text \<open>
  A 100-byte read from a descriptor that offers 40 bytes leaves a buffer of 101 bytes,
  not 41: the vector is sized from the requested length before the read.
\<close>

theorem setAngleInfo_buffer_size_counterexample:
  "map_sum id (length \<circ> mRulesBuffer \<circ> fst)
     (setAngleInfo bare_platform ''/a'' ''app'' ''native'' 3 0 100 getInstance world_40) = Inr 101"
  by (simp add: setAngleInfo_def updateUseAngle_def posix_lseek_def posix_read_def world_40_def
        getInstance_def bare_platform_def emit_def Let_def)

text \<open>
  C3, as the code has it: for a rules length in range (not negative and below
  \<open>LONG_MAX\<close>) whose buffer can be allocated, \<open>setAngleInfo\<close> returns, and what it returns
  is the decision evaluation (\<open>updateUseAngle\<close>) run on the configured application name,
  opt-in and buffer. The buffer always has the requested length plus one bytes; with
  \<open>bytes\<close> the bytes the descriptor offers (none on a failed read), it starts with
  \<open>bytes\<close>, has NUL at index \<open>length bytes\<close>, and is NUL from there to its end. Read as a
  C string it is \<open>bytes\<close> up to their first NUL: all of \<open>bytes\<close> when none of them is NUL.
\<close>

theorem setAngleInfo_rules_buffer:
  assumes "0 \<le> sint rulesLength" and "sint rulesLength < LONG_MAX"
    and "allocates p (nat (sint rulesLength) + 1)"
  shows "\<exists>g' w' g2 w2.
           setAngleInfo p path appName developerOptIn rulesFd rulesOffset rulesLength g w =
             Inr (g', w') \<and>
           (g', w') = updateUseAngle p g2 w2 \<and>
           mAngleAppName g2 = appName \<and> mAngleDeveloperOptIn g2 = developerOptIn \<and>
           mRulesBuffer g2 = mRulesBuffer g' \<and>
           (let bytes = offered rulesFd rulesOffset (nat (sint rulesLength)) w in
              length (mRulesBuffer g') = nat (sint rulesLength) + 1 \<and>
              take (length bytes) (mRulesBuffer g') = bytes \<and>
              mRulesBuffer g' ! length bytes = NUL \<and>
              drop (length bytes) (mRulesBuffer g') =
                replicate (nat (sint rulesLength) + 1 - length bytes) NUL \<and>
              c_str (mRulesBuffer g') = c_str bytes \<and>
              (NUL \<notin> set bytes \<longrightarrow> c_str (mRulesBuffer g') = bytes))"
proof -
  let ?n = "nat (sint rulesLength)"
  let ?bytes = "offered rulesFd rulesOffset ?n w"
  let ?buf = "?bytes @ replicate (Suc ?n - length ?bytes) NUL"
  from assms obtain g2 w2 where
    s: "setAngleInfo p path appName developerOptIn rulesFd rulesOffset rulesLength g w =
          Inr (updateUseAngle p g2 w2)"
    and g2: "g2 = g\<lparr>mAnglePath := path, mAngleAppName := appName,
             mAngleDeveloperOptIn := developerOptIn, mRulesBuffer := ?buf\<rparr>"
    by (rule setAngleInfo_evaluates)
  obtain g' w' where u: "updateUseAngle p g2 w2 = (g', w')"
    by (cases "updateUseAngle p g2 w2")
  with updateUseAngle_frame [of g2 p w2] g2 have buf: "mRulesBuffer g' = ?buf"
    by (simp add: angle_frame_def)
  have len: "length ?bytes \<le> ?n"
    by (simp add: offered_def split: option.splits)
  then obtain k where k: "Suc ?n - length ?bytes = Suc k"
    by (metis Suc_diff_le)
  have l: "length ?buf = ?n + 1" using len by simp
  have t: "take (length ?bytes) ?buf = ?bytes" by simp
  have n: "?buf ! length ?bytes = NUL" by (simp add: k nth_append)
  have d: "drop (length ?bytes) ?buf = replicate (?n + 1 - length ?bytes) NUL" by simp
  have c: "c_str ?buf = c_str ?bytes"
    using c_str_terminated [of ?bytes k] by (simp only: k)
  have c': "c_str ?buf = ?bytes" if "NUL \<notin> set ?bytes"
    using c c_str_without_NUL [OF that] by simp
  from s u g2 buf l t n d c c' show ?thesis
    apply (rule_tac x = g' in exI)
    apply (rule_tac x = w' in exI)
    apply (rule_tac x = g2 in exI)
    apply (rule_tac x = w2 in exI)
    apply (simp add: Let_def)
    done
qed

theorem setAngleInfo_rules_buffer_witness:
  "0 \<le> sint (100 :: 64 word) \<and> sint (100 :: 64 word) < LONG_MAX \<and>
   allocates bare_platform (nat (sint (100 :: 64 word)) + 1) \<and>
   NUL \<notin> set (replicate 40 (CHR ''x'')) \<and>
   (\<exists>g' w'. setAngleInfo bare_platform ''/a'' ''app'' [] 3 0 100 getInstance world_40 =
              Inr (g', w') \<and>
            length (mRulesBuffer g') = 101 \<and>
            take 40 (mRulesBuffer g') = replicate 40 (CHR ''x'') \<and>
            mRulesBuffer g' ! 40 = NUL \<and>
            c_str (mRulesBuffer g') = replicate 40 (CHR ''x''))"
proof -
  have h: "0 \<le> sint (100 :: 64 word)" "sint (100 :: 64 word) < LONG_MAX"
    "allocates bare_platform (nat (sint (100 :: 64 word)) + 1)"
    by (simp_all add: LONG_MAX_def bare_platform_def)
  have o: "offered 3 0 (nat (sint (100 :: 64 word))) world_40 = replicate 40 (CHR ''x'')"
    by (simp add: offered_def world_40_def)
  have x: "NUL \<notin> set (replicate 40 (CHR ''x''))"
    by (simp add: NUL_def)
  from setAngleInfo_rules_buffer [OF h, of "''/a''" "''app''" "[]" 3 0 getInstance world_40]
  obtain g' w' where
    "setAngleInfo bare_platform ''/a'' ''app'' [] 3 0 100 getInstance world_40 = Inr (g', w')"
    "length (mRulesBuffer g') = 101"
    "take 40 (mRulesBuffer g') = replicate 40 (CHR ''x'')"
    "mRulesBuffer g' ! 40 = NUL"
    "c_str (mRulesBuffer g') = replicate 40 (CHR ''x'')"
    unfolding o Let_def using x by auto
  with h x show ?thesis by blast
qed

subsection \<open>The developer override\<close>

text \<open>
  C4. For every platform (so every feature-support library and every enablement flag),
  every descriptor content and every earlier state, \<open>setAngleInfo\<close> with opt-in
  \<open>angle\<close> returns with the cached decision true, and with opt-in \<open>native\<close> with the
  cached decision false; in both cases the call adds no event that touches the library
  (no load, no symbol lookup, no call, no unload) and does not run the once-only
  creation of the namespace the library would be loaded from. This is for the calls
  that get as far as the decision: those whose rules length is in range (not negative
  and below \<open>LONG_MAX\<close>) and whose buffer can be allocated.
\<close>

theorem setAngleInfo_developer_override:
  assumes "0 \<le> sint rulesLength" and "sint rulesLength < LONG_MAX"
    and "allocates p (nat (sint rulesLength) + 1)"
  shows "(\<exists>g' w'. setAngleInfo p path appName ''angle'' rulesFd rulesOffset rulesLength g w =
                    Inr (g', w') \<and>
                  mUseAngle g' \<and>
                  filter is_module_event (trace w') = filter is_module_event (trace w) \<and>
                  getAngleNamespace_once g' = getAngleNamespace_once g) \<and>
         (\<exists>g' w'. setAngleInfo p path appName ''native'' rulesFd rulesOffset rulesLength g w =
                    Inr (g', w') \<and>
                  \<not> mUseAngle g' \<and>
                  filter is_module_event (trace w') = filter is_module_event (trace w) \<and>
                  getAngleNamespace_once g' = getAngleNamespace_once g)"
proof -
  have forced:
    "\<exists>g' w'. setAngleInfo p path appName opt rulesFd rulesOffset rulesLength g w =
               Inr (g', w') \<and>
             mUseAngle g' = (opt = ''angle'') \<and>
             filter is_module_event (trace w') = filter is_module_event (trace w) \<and>
             getAngleNamespace_once g' = getAngleNamespace_once g"
    if opt: "opt = ''angle'' \<or> opt = ''native''" for opt
  proof -
    from assms obtain g2 w2 where
      s: "setAngleInfo p path appName opt rulesFd rulesOffset rulesLength g w =
            Inr (updateUseAngle p g2 w2)"
      and g2: "g2 = g\<lparr>mAnglePath := path, mAngleAppName := appName,
             mAngleDeveloperOptIn := opt,
             mRulesBuffer :=
               offered rulesFd rulesOffset (nat (sint rulesLength)) w @
               replicate
                 (Suc (nat (sint rulesLength)) -
                  length (offered rulesFd rulesOffset (nat (sint rulesLength)) w))
                 NUL\<rparr>"
      and tr: "filter is_module_event (trace w2) = filter is_module_event (trace w)"
      by (rule setAngleInfo_evaluates)
    from opt g2 have
      "updateUseAngle p g2 w2 =
         (g2\<lparr>mUseAngle := (opt = ''angle'')\<rparr>,
          emit (Log ALOGV (if opt = ''angle''
                           then ''User set Developer Options to force the use of ANGLE''
                           else ''User set Developer Options to force the use of Native'')) w2)"
      by (auto simp: updateUseAngle_def)
    with s g2 tr show ?thesis by simp
  qed
  from forced [of "''angle''"] forced [of "''native''"] show ?thesis by simp
qed

theorem setAngleInfo_developer_override_witness:
  "0 \<le> sint (0 :: 64 word) \<and> sint (0 :: 64 word) < LONG_MAX \<and>
   allocates (platform_with (complete_lib True False)) (nat (sint (0 :: 64 word)) + 1) \<and>
   allocates (platform_with (complete_lib True True)) (nat (sint (0 :: 64 word)) + 1) \<and>
   (\<exists>g' w'. setAngleInfo (platform_with (complete_lib True False)) ''/a'' ''app'' ''angle'' 3 0 0
              getInstance world0 = Inr (g', w') \<and>
            mUseAngle g' \<and> filter is_module_event (trace w') = []) \<and>
   (\<exists>g' w'. setAngleInfo (platform_with (complete_lib True True)) ''/a'' ''app'' ''native'' 3 0 0
              getInstance world0 = Inr (g', w') \<and>
            \<not> mUseAngle g' \<and> filter is_module_event (trace w') = [])"
proof -
  have z: "0 \<le> sint (0 :: 64 word)" "sint (0 :: 64 word) < LONG_MAX"
    by (simp_all add: LONG_MAX_def)
  have a: "allocates (platform_with lib) (nat (sint (0 :: 64 word)) + 1)" for lib
    by (simp add: platform_with_def bare_platform_def)
  have t: "filter is_module_event (trace world0) = []" by (simp add: world0_def)
  from setAngleInfo_developer_override [OF z a, of "complete_lib True False"
      "''/a''" "''app''" 3 0 getInstance world0]
    setAngleInfo_developer_override [OF z a, of "complete_lib True True"
      "''/a''" "''app''" 3 0 getInstance world0]
    z a
  show ?thesis unfolding t by blast
qed

subsection \<open>The decision engine fails closed\<close>

lemma GET_SYMBOL_None [simp]:
  "GET_SYMBOL symbol None w rest =
     (False, emit (Log ALOGW (''Cannot find '' @ symbol @
                              '' in ANGLE feature-support library''))
               (emit (Dlsym symbol) w))"
  by (simp add: GET_SYMBOL_def)

lemma GET_SYMBOL_Some [simp]:
  "GET_SYMBOL symbol (Some f) w rest = rest f (emit (Dlsym symbol) w)"
  by (simp add: GET_SYMBOL_def)

lemma case_2_entry_point_missing:
  assumes "entry_point_missing so"
  shows "\<not> fst (checkAngleRules_case_2 so ms manufacturer model g w) \<and>
         filter is_rule_evaluation_call
           (trace (snd (checkAngleRules_case_2 so ms manufacturer model g w))) =
         filter is_rule_evaluation_call (trace w)"
proof -
  consider
      (a) "sym_ANGLEAndroidParseRulesString so = None"
    | (b) f1 where "sym_ANGLEAndroidParseRulesString so = Some f1"
        "sym_ANGLEGetSystemInfo so = None"
    | (c) f1 f2 where "sym_ANGLEAndroidParseRulesString so = Some f1"
        "sym_ANGLEGetSystemInfo so = Some f2" "sym_ANGLEAddDeviceInfoToSystemInfo so = None"
    | (d) f1 f2 f3 where "sym_ANGLEAndroidParseRulesString so = Some f1"
        "sym_ANGLEGetSystemInfo so = Some f2" "sym_ANGLEAddDeviceInfoToSystemInfo so = Some f3"
        "sym_ANGLEShouldBeUsedForApplication so = None"
    | (e) f1 f2 f3 f4 where "sym_ANGLEAndroidParseRulesString so = Some f1"
        "sym_ANGLEGetSystemInfo so = Some f2" "sym_ANGLEAddDeviceInfoToSystemInfo so = Some f3"
        "sym_ANGLEShouldBeUsedForApplication so = Some f4" "sym_ANGLEFreeRulesHandle so = None"
    | (f) f1 f2 f3 f4 f5 where "sym_ANGLEAndroidParseRulesString so = Some f1"
        "sym_ANGLEGetSystemInfo so = Some f2" "sym_ANGLEAddDeviceInfoToSystemInfo so = Some f3"
        "sym_ANGLEShouldBeUsedForApplication so = Some f4" "sym_ANGLEFreeRulesHandle so = Some f5"
        "sym_ANGLEFreeSystemInfoHandle so = None"
    using assms unfolding entry_point_missing_def Option.is_none_def
    by (metis option.exhaust)
  then show ?thesis
    by cases (simp_all add: checkAngleRules_case_2_def)
qed

lemma checkAngleRules_fails_closed:
  assumes "negotiation_fails so \<or> entry_point_missing so \<or> version_unsupported so"
  shows "\<not> fst (checkAngleRules p so g w) \<and>
         filter is_rule_evaluation_call (trace (snd (checkAngleRules p so g w))) =
         filter is_rule_evaluation_call (trace w)"
proof (cases "sym_ANGLEGetFeatureSupportUtilAPIVersion so")
  case None
  then show ?thesis by (simp add: checkAngleRules_def Let_def)
next
  case (Some f)
  obtain ok v ms where r: "f CURRENT_ANGLE_API_VERSION (lib_state so) = ((ok, v), ms)"
    by (metis surj_pair)
  show ?thesis
  proof (cases "ok \<and> v = 2")
    case False
    with Some r show ?thesis by (auto simp: checkAngleRules_def Let_def)
  next
    case True
    with Some r assms have "entry_point_missing so"
      by (simp add: negotiation_fails_def version_unsupported_def negotiate_def)
    let ?w = "emit (Call_ANGLEGetFeatureSupportUtilAPIVersion CURRENT_ANGLE_API_VERSION)
                (emit (Dlsym ''ANGLEGetFeatureSupportUtilAPIVersion'') w)"
    obtain u w2 where c2:
      "checkAngleRules_case_2 so ms (property_get p ''ro.product.manufacturer'' ''UNSET'')
         (property_get p ''ro.product.model'' ''UNSET'') g ?w = (u, w2)"
      by (metis surj_pair)
    with case_2_entry_point_missing [OF \<open>entry_point_missing so\<close>,
        of ms "property_get p ''ro.product.manufacturer'' ''UNSET''"
           "property_get p ''ro.product.model'' ''UNSET''" g ?w]
    have "\<not> u" and
      "filter is_rule_evaluation_call (trace w2) = filter is_rule_evaluation_call (trace w)"
      by simp_all
    with Some r True c2 show ?thesis
      by (simp add: checkAngleRules_def Let_def)
  qed
qed

lemma loadLibrary_mUseAngle:
  "fst (loadLibrary p name (g\<lparr>mUseAngle := b\<rparr>) w) = fst (loadLibrary p name g w)"
  by (simp add: loadLibrary_def getAngleNamespace_def getAngleNamespace_once_body_def Let_def
        split: option.splits prod.splits)

lemma loadLibrary_keeps_decision:
  "mUseAngle (fst (snd (loadLibrary p name g w))) = mUseAngle g"
  by (simp add: loadLibrary_def getAngleNamespace_def getAngleNamespace_once_body_def Let_def
        split: option.splits prod.splits)

lemma loadLibrary_no_rule_evaluation:
  "filter is_rule_evaluation_call (trace (snd (snd (loadLibrary p name g w)))) =
   filter is_rule_evaluation_call (trace w)"
  by (simp add: loadLibrary_def getAngleNamespace_def getAngleNamespace_once_body_def Let_def
        split: option.splits prod.splits)

text \<open>
  C5. With the developer override unset (the opt-in is neither \<open>angle\<close> nor \<open>native\<close>),
  if the enablement flag is off, or the library does not load, or its version
  negotiation entry point is absent or reports failure, or one of the version-2 entry
  points is missing, or the negotiated version is not 2, then the evaluation leaves the
  cached decision false; and in each of these cases (so in the negotiation-failure and
  unsupported-version cases) it calls none of the rule-evaluation entry points.
\<close>

theorem updateUseAngle_fails_closed:
  assumes unset: "mAngleDeveloperOptIn g \<noteq> ''angle''" "mAngleDeveloperOptIn g \<noteq> ''native''"
    and fail: "atoi p (property_get p ''debug.angle.enable'' ''0'') = 0 \<or>
               (case fst (loadLibrary p ''feature_support'' g w) of
                  None \<Rightarrow> True
                | Some so \<Rightarrow>
                    negotiation_fails so \<or> entry_point_missing so \<or> version_unsupported so)"
  shows "\<not> mUseAngle (fst (updateUseAngle p g w)) \<and>
         filter is_rule_evaluation_call (trace (snd (updateUseAngle p g w))) =
         filter is_rule_evaluation_call (trace w)"
proof (cases "atoi p (property_get p ''debug.angle.enable'' ''0'') = 0")
  case True
  with unset show ?thesis by (simp add: updateUseAngle_def Let_def)
next
  case False
  let ?g = "g\<lparr>mUseAngle := False\<rparr>"
  obtain so g1 w1 where l: "loadLibrary p ''feature_support'' ?g w = (so, g1, w1)"
    by (cases "loadLibrary p ''feature_support'' ?g w")
  then have so: "so = fst (loadLibrary p ''feature_support'' g w)"
    using loadLibrary_mUseAngle [where p = p and name = "''feature_support''" and g = g
        and b = False and w = w] by simp
  have w1: "filter is_rule_evaluation_call (trace w1) = filter is_rule_evaluation_call (trace w)"
    using loadLibrary_no_rule_evaluation [of p "''feature_support''" ?g w] l by simp
  have g1: "\<not> mUseAngle g1"
    using loadLibrary_keeps_decision [of p "''feature_support''" ?g w] l by simp
  show ?thesis
  proof (cases so)
    case None
    with unset False l w1 g1 show ?thesis by (simp add: updateUseAngle_def Let_def)
  next
    case (Some lib)
    with so have "fst (loadLibrary p ''feature_support'' g w) = Some lib"
      by simp
    with fail False have
      "negotiation_fails lib \<or> entry_point_missing lib \<or> version_unsupported lib"
      by simp
    then have c: "\<not> fst (checkAngleRules p lib g1 w') \<and>
         filter is_rule_evaluation_call (trace (snd (checkAngleRules p lib g1 w'))) =
         filter is_rule_evaluation_call (trace w')" for w'
      by (rule checkAngleRules_fails_closed)
    let ?w = "emit (Log ALOGV ''loaded ANGLE's opt-in/out logic from namespace'') w1"
    obtain u w2 where r: "checkAngleRules p lib g1 ?w = (u, w2)"
      by (metis surj_pair)
    with c [of ?w] w1 have "\<not> u" and
      "filter is_rule_evaluation_call (trace w2) = filter is_rule_evaluation_call (trace w)"
      by simp_all
    with unset False l Some r show ?thesis
      by (simp add: updateUseAngle_def Let_def)
  qed
qed

theorem updateUseAngle_fails_closed_witness:
  "mAngleDeveloperOptIn getInstance \<noteq> ''angle'' \<and>
   mAngleDeveloperOptIn getInstance \<noteq> ''native'' \<and>
   version_unsupported
     ((complete_lib True True)
        \<lparr>sym_ANGLEGetFeatureSupportUtilAPIVersion := Some (\<lambda>v ms. ((True, 3), ms))\<rparr>) \<and>
   \<not> mUseAngle (fst (updateUseAngle
       (platform_with ((complete_lib True True)
          \<lparr>sym_ANGLEGetFeatureSupportUtilAPIVersion := Some (\<lambda>v ms. ((True, 3), ms))\<rparr>))
       getInstance world0)) \<and>
   filter is_rule_evaluation_call (trace (snd (updateUseAngle
       (platform_with ((complete_lib True True)
          \<lparr>sym_ANGLEGetFeatureSupportUtilAPIVersion := Some (\<lambda>v ms. ((True, 3), ms))\<rparr>))
       getInstance world0))) = [] \<and>
   entry_point_missing ((complete_lib True True)\<lparr>sym_ANGLEFreeSystemInfoHandle := None\<rparr>) \<and>
   \<not> mUseAngle (fst (updateUseAngle
       (platform_with ((complete_lib True True)\<lparr>sym_ANGLEFreeSystemInfoHandle := None\<rparr>))
       getInstance world0))"
proof -
  let ?v3 = "(complete_lib True True)
               \<lparr>sym_ANGLEGetFeatureSupportUtilAPIVersion := Some (\<lambda>v ms. ((True, 3), ms))\<rparr>"
  let ?nf = "(complete_lib True True)\<lparr>sym_ANGLEFreeSystemInfoHandle := None\<rparr>"
  have a: "mAngleDeveloperOptIn getInstance \<noteq> ''angle''"
    and n: "mAngleDeveloperOptIn getInstance \<noteq> ''native''"
    by (simp_all add: getInstance_def)
  have load: "fst (loadLibrary (platform_with lib) ''feature_support'' getInstance world0) =
              Some lib" for lib
    by (simp add: loadLibrary_def getAngleNamespace_def getAngleNamespace_once_body_def
          platform_with_def bare_platform_def getInstance_def Let_def)
  have v3: "version_unsupported ?v3"
    by (simp add: version_unsupported_def negotiate_def complete_lib_def
          CURRENT_ANGLE_API_VERSION_def)
  have nf: "entry_point_missing ?nf"
    by (simp add: entry_point_missing_def complete_lib_def)
  have t: "filter is_rule_evaluation_call (trace world0) = []"
    by (simp add: world0_def)
  have f3: "atoi (platform_with ?v3) (property_get (platform_with ?v3) ''debug.angle.enable'' ''0'') = 0 \<or>
     (case fst (loadLibrary (platform_with ?v3) ''feature_support'' getInstance world0) of
        None \<Rightarrow> True
      | Some so \<Rightarrow> negotiation_fails so \<or> entry_point_missing so \<or> version_unsupported so)"
    using v3 by (simp add: load)
  have ff: "atoi (platform_with ?nf) (property_get (platform_with ?nf) ''debug.angle.enable'' ''0'') = 0 \<or>
     (case fst (loadLibrary (platform_with ?nf) ''feature_support'' getInstance world0) of
        None \<Rightarrow> True
      | Some so \<Rightarrow> negotiation_fails so \<or> entry_point_missing so \<or> version_unsupported so)"
    using nf by (simp add: load)
  from updateUseAngle_fails_closed [OF a n f3] updateUseAngle_fails_closed [OF a n ff]
    a n v3 nf t
  show ?thesis by simp
qed

subsection \<open>Release of the library's handles\<close>

text \<open>
  The calls of \<open>checkAngleRules\<close> on a library that has every entry point, negotiates
  version 2, parses the rules and gives a system-info handle: the two handles are freed,
  once each, when adding the device info succeeds, and not at all when it fails.
\<close>

lemma checkAngleRules_version_2_calls:
  assumes syms:
      "sym_ANGLEGetFeatureSupportUtilAPIVersion so = Some getVersion"
      "sym_ANGLEAndroidParseRulesString so = Some parseRules"
      "sym_ANGLEGetSystemInfo so = Some getSystemInfo"
      "sym_ANGLEAddDeviceInfoToSystemInfo so = Some addDeviceInfo"
      "sym_ANGLEShouldBeUsedForApplication so = Some shouldBeUsed"
      "sym_ANGLEFreeRulesHandle so = Some freeRules"
      "sym_ANGLEFreeSystemInfoHandle so = Some freeSystemInfo"
    and negotiated: "getVersion CURRENT_ANGLE_API_VERSION (lib_state so) = ((True, 2), ms0)"
    and parsed: "parseRules (mRulesBuffer g) ms0 = ((True, rulesHandle, rulesVersion), ms1)"
    and obtained: "getSystemInfo ms1 = ((True, systemInfoHandle), ms2)"
    and added: "addDeviceInfo (property_get p ''ro.product.manufacturer'' ''UNSET'')
                  (property_get p ''ro.product.model'' ''UNSET'') systemInfoHandle ms2 =
                (added, ms3)"
    and answered: "shouldBeUsed rulesHandle rulesVersion systemInfoHandle (mAngleAppName g) ms3 =
                   (useAngle, ms4)"
  shows "fst (checkAngleRules p so g w) = (added \<and> useAngle) \<and>
         filter is_rule_evaluation_call (trace (snd (checkAngleRules p so g w))) =
           filter is_rule_evaluation_call (trace w) @
           [Call_ANGLEAndroidParseRulesString (mRulesBuffer g),
            Call_ANGLEGetSystemInfo,
            Call_ANGLEAddDeviceInfoToSystemInfo
              (property_get p ''ro.product.manufacturer'' ''UNSET'')
              (property_get p ''ro.product.model'' ''UNSET'') systemInfoHandle] @
           (if added then
              [Call_ANGLEShouldBeUsedForApplication rulesHandle rulesVersion systemInfoHandle
                 (mAngleAppName g),
               Call_ANGLEFreeRulesHandle rulesHandle,
               Call_ANGLEFreeSystemInfoHandle systemInfoHandle]
            else [])"
  using assms
  by (simp add: checkAngleRules_def checkAngleRules_case_2_def Let_def emit_def
        split: prod.splits)

text \<open>
  C2, at an input where it fails: the library loads, negotiates version 2, parses the
  rules into handle 11 and gives system-info handle 22, then refuses the device info.
  \<open>setAngleInfo\<close> returns with the decision false, and the rule-evaluation calls made
  are the parse, the system-info and the add-device-info calls only: neither free entry
  point is called on the two handles obtained.
\<close>

theorem setAngleInfo_handles_not_freed:
  "map_sum id (mUseAngle \<circ> fst)
     (setAngleInfo (platform_with (complete_lib False True)) ''/data/angle'' ''com.example'' []
        3 0 40 getInstance world_40) = Inr False \<and>
   map_sum id (filter is_rule_evaluation_call \<circ> trace \<circ> snd)
     (setAngleInfo (platform_with (complete_lib False True)) ''/data/angle'' ''com.example'' []
        3 0 40 getInstance world_40) =
   Inr [Call_ANGLEAndroidParseRulesString (replicate 40 (CHR ''x'') @ [NUL]),
        Call_ANGLEGetSystemInfo,
        Call_ANGLEAddDeviceInfoToSystemInfo ''UNSET'' ''UNSET'' 22]"
  by (simp add: setAngleInfo_def updateUseAngle_def loadLibrary_def getAngleNamespace_def
        getAngleNamespace_once_body_def checkAngleRules_def checkAngleRules_case_2_def
        posix_lseek_def posix_read_def platform_with_def bare_platform_def complete_lib_def
        world_40_def getInstance_def CURRENT_ANGLE_API_VERSION_def emit_def Let_def
        list_update_append)

subsection \<open>The vendor-driver namespace\<close>

lemma Join_Nil_iff:
  assumes "\<forall>n \<in> set names. n \<noteq> []"
  shows "Join names separator = [] \<longleftrightarrow> names = []"
  using assms by (cases "(names, separator)" rule: Join.cases) simp_all

lemma libraryNames_not_empty:
  "libraryNames p type = Some names \<Longrightarrow> \<forall>n \<in> set names. n \<noteq> []"
  by (auto simp: libraryNames_def readConfig_def Let_def split: option.splits)

lemma getSystemNativeLibraries_sonames:
  "fst (getSystemNativeLibraries p type w) = sonames p type"
  by (simp add: getSystemNativeLibraries_def sonames_def libraryNames_def readConfig_def Let_def
        split: option.splits)

lemma sonames_Nil_iff:
  "sonames p type = [] \<longleftrightarrow> libraryNames p type = None \<or> libraryNames p type = Some []"
proof (cases "libraryNames p type")
  case None
  then show ?thesis by (simp add: sonames_def)
next
  case (Some names)
  with Join_Nil_iff [OF libraryNames_not_empty [OF Some], of "CHR '':''"] show ?thesis
    by (simp add: sonames_def)
qed

lemma getDriverNamespace_once_body_absent:
  assumes "mDriverNamespace g = None"
    and "mDriverPath g = [] \<or>
         android_get_exported_namespace p ''vndk'' = None \<or>
         sonames p LLNDK = [] \<or> sonames p VNDKSP = [] \<or>
         \<not> android_link_namespaces p
             (android_create_namespace p ''gfx driver'' (Some (mDriverPath g))
                (Some (mDriverPath g)) ANDROID_NAMESPACE_TYPE_ISOLATED None None)
             None (sonames p LLNDK) \<or>
         \<not> android_link_namespaces p
             (android_create_namespace p ''gfx driver'' (Some (mDriverPath g))
                (Some (mDriverPath g)) ANDROID_NAMESPACE_TYPE_ISOLATED None None)
             (android_get_exported_namespace p ''vndk'') (sonames p VNDKSP)"
  shows "mDriverNamespace (fst (getDriverNamespace_once_body p g w)) = None"
proof -
  obtain l1 w1 where l1: "getSystemNativeLibraries p LLNDK w = (l1, w1)"
    by (metis surj_pair)
  obtain l2 w2 where l2: "getSystemNativeLibraries p VNDKSP w1 = (l2, w2)"
    by (metis surj_pair)
  from l1 have s1: "l1 = sonames p LLNDK"
    using getSystemNativeLibraries_sonames [of p LLNDK w] by simp
  from l2 have s2: "l2 = sonames p VNDKSP"
    using getSystemNativeLibraries_sonames [of p VNDKSP w1] by simp
  show ?thesis
    using assms l1 l2 s1 s2
    by (auto simp: getDriverNamespace_once_body_def Let_def split: option.splits)
qed

lemma getDriverNamespace_once_body_flag:
  "getDriverNamespace_once (fst (getDriverNamespace_once_body p g w)) = getDriverNamespace_once g"
  by (simp add: getDriverNamespace_once_body_def Let_def split: option.splits prod.splits)

lemma setAngleInfo_frame:
  assumes "setAngleInfo p path appName developerOptIn rulesFd rulesOffset rulesLength g w =
             Inr (g', w')"
  shows "mDriverPath g' = mDriverPath g \<and> mLayerPaths g' = mLayerPaths g \<and>
         mAppNamespace g' = mAppNamespace g \<and> mDriverNamespace g' = mDriverNamespace g \<and>
         getDriverNamespace_once g' = getDriverNamespace_once g"
proof -
  from setAngleInfo_returns [OF assms]
  have "0 \<le> sint rulesLength" and "sint rulesLength < LONG_MAX"
    and "allocates p (nat (sint rulesLength) + 1)"
    by simp_all
  then obtain g2 w2 where
    s: "setAngleInfo p path appName developerOptIn rulesFd rulesOffset rulesLength g w =
          Inr (updateUseAngle p g2 w2)"
    and g2: "g2 = g\<lparr>mAnglePath := path, mAngleAppName := appName,
             mAngleDeveloperOptIn := developerOptIn,
             mRulesBuffer :=
               offered rulesFd rulesOffset (nat (sint rulesLength)) w @
               replicate
                 (Suc (nat (sint rulesLength)) -
                  length (offered rulesFd rulesOffset (nat (sint rulesLength)) w))
                 NUL\<rparr>"
    by (rule setAngleInfo_evaluates)
  from s assms have "g' = fst (updateUseAngle p g2 w2)" by (metis fst_conv sum.inject(2))
  with updateUseAngle_frame [of g2 p w2] g2 show ?thesis
    by (simp add: angle_frame_def)
qed

lemma api_step_driver_namespace:
  assumes "api_step p c g w = Inr (g', w')"
  shows "(c \<noteq> GetDriverNamespace \<longrightarrow>
            getDriverNamespace_once g' = getDriverNamespace_once g \<and>
            mDriverNamespace g' = mDriverNamespace g) \<and>
         (c = GetDriverNamespace \<longrightarrow>
            getDriverNamespace_once g' \<and> (getDriverNamespace_once g \<longrightarrow> g' = g))"
proof (cases c)
  case (SetDriverPath path)
  with assms show ?thesis by (auto simp: setDriverPath_def split: if_splits)
next
  case (SetAngleInfo path appName developerOptIn rulesFd rulesOffset rulesLength)
  with assms setAngleInfo_frame [of p path appName developerOptIn rulesFd rulesOffset
      rulesLength g w g' w']
  show ?thesis by simp
next
  case (SetLayerPaths appNamespace layerPaths)
  with assms show ?thesis by (auto simp: setLayerPaths_def split: if_splits)
next
  case (SetDebugLayers layers)
  with assms show ?thesis by (auto simp: setDebugLayers_def)
next
  case (SetDebugLayersGLES layers)
  with assms show ?thesis by (auto simp: setDebugLayersGLES_def)
next
  case GetDriverNamespace
  show ?thesis
  proof (cases "getDriverNamespace_once g")
    case True
    with assms GetDriverNamespace show ?thesis by (auto simp: getDriverNamespace_def)
  next
    case False
    with assms GetDriverNamespace
    have "g' = fst (getDriverNamespace_once_body p (g\<lparr>getDriverNamespace_once := True\<rparr>) w)"
      by (auto simp: getDriverNamespace_def Let_def split: prod.splits)
    with False GetDriverNamespace show ?thesis
      by (simp add: getDriverNamespace_once_body_flag)
  qed
next
  case GetAngleNamespace
  with assms getAngleNamespace_frame [of g p w] show ?thesis
    by (auto simp: angle_frame_def)
next
  case ShouldUseAngle
  with assms show ?thesis by auto
next
  case (ShouldUseAngle_appName appName)
  with assms show ?thesis by auto
qed

lemma run_keeps_absent:
  assumes "getDriverNamespace_once g" and "mDriverNamespace g = None"
    and "run calls g w = Inr (g', w')"
  shows "getDriverNamespace_once g' \<and> mDriverNamespace g' = None"
  using assms
proof (induction calls arbitrary: g w)
  case Nil
  then show ?case by simp
next
  case (Cons pc calls)
  obtain p c where pc: "pc = (p, c)" by (cases pc)
  with Cons.prems obtain g1 w1 where
    step: "api_step p c g w = Inr (g1, w1)" and rest: "run calls g1 w1 = Inr (g', w')"
    by (auto split: sum.splits)
  from api_step_driver_namespace [OF step] Cons.prems(1) Cons.prems(2)
  have "getDriverNamespace_once g1" and "mDriverNamespace g1 = None"
    by (cases "c = GetDriverNamespace"; simp)+
  from Cons.IH [OF this rest] show ?case .
qed

lemma run_before_first_call:
  assumes "\<not> getDriverNamespace_once g \<longrightarrow> mDriverNamespace g = None"
    and "run calls g w = Inr (g', w')"
  shows "\<not> getDriverNamespace_once g' \<longrightarrow> mDriverNamespace g' = None"
  using assms
proof (induction calls arbitrary: g w)
  case Nil
  then show ?case by simp
next
  case (Cons pc calls)
  obtain p c where pc: "pc = (p, c)" by (cases pc)
  with Cons.prems obtain g1 w1 where
    step: "api_step p c g w = Inr (g1, w1)" and rest: "run calls g1 w1 = Inr (g', w')"
    by (auto split: sum.splits)
  from api_step_driver_namespace [OF step] Cons.prems(1)
  have "\<not> getDriverNamespace_once g1 \<longrightarrow> mDriverNamespace g1 = None"
    by (cases "c = GetDriverNamespace") simp_all
  from Cons.IH [OF this rest] show ?case .
qed

text \<open>
  C7. Take any state the object can reach from its initial state in which
  \<open>getDriverNamespace\<close> has not run yet. If at that first call the vendor driver path is
  empty, or the exported \<open>vndk\<close> namespace is not found, or the LLNDK or the VNDK-SP name
  list is empty or its config file cannot be read, or one of the two link steps fails,
  then the call returns no namespace, and so does \<open>getDriverNamespace\<close> after any later
  sequence of calls that returns, on any platform.
\<close>

theorem getDriverNamespace_absent_is_terminal:
  assumes reach: "run before getInstance w0 = Inr (g, w)"
    and first: "\<not> getDriverNamespace_once g"
    and fail:
      "mDriverPath g = [] \<or>
       android_get_exported_namespace p ''vndk'' = None \<or>
       libraryNames p LLNDK = None \<or> libraryNames p LLNDK = Some [] \<or>
       libraryNames p VNDKSP = None \<or> libraryNames p VNDKSP = Some [] \<or>
       \<not> android_link_namespaces p
           (android_create_namespace p ''gfx driver'' (Some (mDriverPath g))
              (Some (mDriverPath g)) ANDROID_NAMESPACE_TYPE_ISOLATED None None)
           None (sonames p LLNDK) \<or>
       \<not> android_link_namespaces p
           (android_create_namespace p ''gfx driver'' (Some (mDriverPath g))
              (Some (mDriverPath g)) ANDROID_NAMESPACE_TYPE_ISOLATED None None)
           (android_get_exported_namespace p ''vndk'') (sonames p VNDKSP)"
    and call: "getDriverNamespace p g w = (r, g1, w1)"
    and later: "run calls g1 w1 = Inr (g2, w2)"
  shows "r = None \<and> fst (getDriverNamespace p' g2 w2) = None"
proof -
  let ?g = "g\<lparr>getDriverNamespace_once := True\<rparr>"
  have "\<not> getDriverNamespace_once getInstance \<longrightarrow> mDriverNamespace getInstance = None"
    by (simp add: getInstance_def)
  from run_before_first_call [OF this reach] first
  have fresh: "mDriverNamespace g = None" by simp
  have none: "mDriverNamespace (fst (getDriverNamespace_once_body p ?g w)) = None"
  proof (rule getDriverNamespace_once_body_absent)
    show "mDriverNamespace ?g = None" using fresh by simp
    show "mDriverPath ?g = [] \<or>
         android_get_exported_namespace p ''vndk'' = None \<or>
         sonames p LLNDK = [] \<or> sonames p VNDKSP = [] \<or>
         \<not> android_link_namespaces p
             (android_create_namespace p ''gfx driver'' (Some (mDriverPath ?g))
                (Some (mDriverPath ?g)) ANDROID_NAMESPACE_TYPE_ISOLATED None None)
             None (sonames p LLNDK) \<or>
         \<not> android_link_namespaces p
             (android_create_namespace p ''gfx driver'' (Some (mDriverPath ?g))
                (Some (mDriverPath ?g)) ANDROID_NAMESPACE_TYPE_ISOLATED None None)
             (android_get_exported_namespace p ''vndk'') (sonames p VNDKSP)"
      using fail by (simp add: sonames_Nil_iff)
  qed
  have flag: "getDriverNamespace_once (fst (getDriverNamespace_once_body p ?g w))"
    by (simp add: getDriverNamespace_once_body_flag)
  from first call have g1: "g1 = fst (getDriverNamespace_once_body p ?g w)"
    and r: "r = mDriverNamespace g1"
    by (auto simp: getDriverNamespace_def Let_def split: prod.splits)
  from g1 none flag have "getDriverNamespace_once g1" and "mDriverNamespace g1 = None"
    by simp_all
  from run_keeps_absent [OF this later] r \<open>mDriverNamespace g1 = None\<close>
  show ?thesis by (simp add: getDriverNamespace_def)
qed

theorem getDriverNamespace_absent_is_terminal_witness:
  "run [(bare_platform, SetDriverPath ''/vendor/lib'')] getInstance world0 =
     Inr (getInstance\<lparr>mDriverPath := ''/vendor/lib''\<rparr>,
          emit (Log ALOGV ''setting driver path to %s'') world0) \<and>
   \<not> getDriverNamespace_once (getInstance\<lparr>mDriverPath := ''/vendor/lib''\<rparr>) \<and>
   android_get_exported_namespace
     (linker_platform\<lparr>android_get_exported_namespace := (\<lambda>name. None)\<rparr>) ''vndk'' = None \<and>
   getDriverNamespace (linker_platform\<lparr>android_get_exported_namespace := (\<lambda>name. None)\<rparr>)
     (getInstance\<lparr>mDriverPath := ''/vendor/lib''\<rparr>)
     (emit (Log ALOGV ''setting driver path to %s'') world0) =
     (None, getInstance\<lparr>mDriverPath := ''/vendor/lib'', getDriverNamespace_once := True\<rparr>,
      emit (Log ALOGV ''setting driver path to %s'') world0) \<and>
   run [(linker_platform, SetDriverPath ''/vendor/lib64''), (linker_platform, GetDriverNamespace)]
     (getInstance\<lparr>mDriverPath := ''/vendor/lib'', getDriverNamespace_once := True\<rparr>)
     (emit (Log ALOGV ''setting driver path to %s'') world0) =
     Inr (getInstance\<lparr>mDriverPath := ''/vendor/lib'', getDriverNamespace_once := True\<rparr>,
          emit (Log ALOGV ''ignoring attempt to change driver path from %s to %s'')
            (emit (Log ALOGV ''setting driver path to %s'') world0)) \<and>
   fst (getDriverNamespace linker_platform
          (getInstance\<lparr>mDriverPath := ''/vendor/lib'', getDriverNamespace_once := True\<rparr>)
          (emit (Log ALOGV ''ignoring attempt to change driver path from %s to %s'')
             (emit (Log ALOGV ''setting driver path to %s'') world0))) =
     None \<and>
   fst (getDriverNamespace linker_platform (getInstance\<lparr>mDriverPath := ''/vendor/lib''\<rparr>)
          (emit (Log ALOGV ''setting driver path to %s'') world0)) =
     Some 2"
proof -
  let ?g = "getInstance\<lparr>mDriverPath := ''/vendor/lib''\<rparr>"
  let ?w = "emit (Log ALOGV ''setting driver path to %s'') world0"
  let ?p = "linker_platform\<lparr>android_get_exported_namespace := (\<lambda>name. None)\<rparr>"
  let ?g1 = "?g\<lparr>getDriverNamespace_once := True\<rparr>"
  let ?w2 = "emit (Log ALOGV ''ignoring attempt to change driver path from %s to %s'') ?w"
  have reach: "run [(bare_platform, SetDriverPath ''/vendor/lib'')] getInstance world0 =
                 Inr (?g, ?w)"
    by (simp add: setDriverPath_def getInstance_def)
  have first: "\<not> getDriverNamespace_once ?g"
    by (simp add: getInstance_def)
  have vndk: "android_get_exported_namespace ?p ''vndk'' = None" by simp
  then have fail:
      "mDriverPath ?g = [] \<or>
       android_get_exported_namespace ?p ''vndk'' = None \<or>
       libraryNames ?p LLNDK = None \<or> libraryNames ?p LLNDK = Some [] \<or>
       libraryNames ?p VNDKSP = None \<or> libraryNames ?p VNDKSP = Some [] \<or>
       \<not> android_link_namespaces ?p
           (android_create_namespace ?p ''gfx driver'' (Some (mDriverPath ?g))
              (Some (mDriverPath ?g)) ANDROID_NAMESPACE_TYPE_ISOLATED None None)
           None (sonames ?p LLNDK) \<or>
       \<not> android_link_namespaces ?p
           (android_create_namespace ?p ''gfx driver'' (Some (mDriverPath ?g))
              (Some (mDriverPath ?g)) ANDROID_NAMESPACE_TYPE_ISOLATED None None)
           (android_get_exported_namespace ?p ''vndk'') (sonames ?p VNDKSP)"
    by blast
  have call: "getDriverNamespace ?p ?g ?w = (None, ?g1, ?w)"
    by (simp add: getDriverNamespace_def getDriverNamespace_once_body_def getInstance_def)
  have later: "run [(linker_platform, SetDriverPath ''/vendor/lib64''),
                    (linker_platform, GetDriverNamespace)] ?g1 ?w = Inr (?g1, ?w2)"
    by (simp add: setDriverPath_def getDriverNamespace_def)
  have fresh: "fst (getDriverNamespace linker_platform ?g ?w) = Some 2"
    by (simp add: getDriverNamespace_def getDriverNamespace_once_body_def getInstance_def
          getSystemNativeLibraries_def readConfig_def insertVndkVersionStr_def
          vndkVersionStr_def find_last_of_def Trim_def isspace_def linker_platform_def
          bare_platform_def Let_def)
  from getDriverNamespace_absent_is_terminal [OF reach first fail call later,
      of linker_platform]
  have "fst (getDriverNamespace linker_platform ?g1 ?w2) = None" by simp
  with reach first vndk fresh call later show ?thesis
    by (simp only: simp_thms)
qed

end
